theory Spec2Isabelle
  imports Complex_Main "HOL-Library.Product_Lexorder" "HOL-Library.Log_Nat" "HOL-Library.Multiset"
begin

section \<open>Data model (orders/models.py, riders/models.py)\<close>

text \<open>
  Primary keys, dates (day numbers) and times of day (minutes after midnight) are natural
  numbers. A landmark is represented by its primary key: Django compares model instances
  by primary key, and the only field the modelled code reads from a landmark is its name,
  which the key determines. Python integers are unbounded, so the counters are \<open>int\<close>.
  The rating is a decimal with two places and is held as a rational. A Python float is
  held as the rational it denotes; every float operation of the source is the exact
  operation followed by rounding to the nearest double (\<open>round_double\<close> below).
\<close>

datatype ORDER_STATUS =
  PENDING_CONFIRMATION | CONFIRMED | RESCHEDULE_REQUESTED | ASSIGNED | IN_TRANSIT
  | DELIVERED | FAILED | CANCELLED

datatype STATUS_CHOICES = AVAILABLE | ON_DELIVERY | OFFLINE

datatype SMS_TYPES = CONFIRMATION | RIDER_ASSIGNMENT | DELIVERY_SUCCESS | DELIVERY_FAILED

record Rider =
  rider_id :: nat
  rider_status :: STATUS_CHOICES
  preferred_landmarks :: "nat list"
  total_deliveries :: int
  successful_deliveries :: int
  failed_deliveries :: int
  rating :: rat

record Order =
  order_id :: nat
  landmark :: "nat option"
  delivery_date :: nat
  delivery_time_start :: nat
  status :: ORDER_STATUS
  assigned_rider :: "nat option"
  confirmation_sms_sent :: bool
  delivered_at :: "nat option"
  delivery_proof :: string
  failure_reason :: string

record DeliveryRoute =
  route_id :: nat
  rider :: nat
  route_date :: nat
  route_landmark :: nat
  route_orders :: "nat list"
  sequence :: int
  estimated_arrival :: nat
  completed :: bool

record SMSLog =
  sms_order :: nat
  message_type :: SMS_TYPES
  delivered :: bool

text \<open>
  The database: one list of rows per model, in the order in which an unordered query
  returns them.
\<close>

record store =
  Order_objects :: "Order list"
  Rider_objects :: "Rider list"
  DeliveryRoute_objects :: "DeliveryRoute list"
  SMSLog_objects :: "SMSLog list"

datatype error =
  AttributeError | IndexError | ValueError | IntegrityError | DoesNotExist
  | Http403 | Http400 | Http404

text \<open>\<open>Model.save()\<close> writes every field of the in-memory object to the row with its key.\<close>

definition save_order :: "Order \<Rightarrow> store \<Rightarrow> store" where
  "save_order ord s =
     s\<lparr>Order_objects := map (\<lambda>x. if order_id x = order_id ord then ord else x) (Order_objects s)\<rparr>"

definition save_rider :: "Rider \<Rightarrow> store \<Rightarrow> store" where
  "save_rider r s =
     s\<lparr>Rider_objects := map (\<lambda>x. if rider_id x = rider_id r then r else x) (Rider_objects s)\<rparr>"

definition save_route :: "DeliveryRoute \<Rightarrow> store \<Rightarrow> store" where
  "save_route rt s =
     s\<lparr>DeliveryRoute_objects :=
         map (\<lambda>x. if route_id x = route_id rt then rt else x) (DeliveryRoute_objects s)\<rparr>"

definition get_order :: "store \<Rightarrow> nat \<Rightarrow> Order option" where
  "get_order s pk = find (\<lambda>x. order_id x = pk) (Order_objects s)"

definition get_rider :: "store \<Rightarrow> nat \<Rightarrow> Rider option" where
  "get_rider s pk = find (\<lambda>x. rider_id x = pk) (Rider_objects s)"

text \<open>The key of a newly inserted route: one more than the greatest key in the table.\<close>

definition next_route_id :: "store \<Rightarrow> nat" where
  "next_route_id s = Suc (fold max (map route_id (DeliveryRoute_objects s)) 0)"

section \<open>SMS service (orders/sms_service.py)\<close>

text \<open>
  The gateway is external: whether a send succeeds is a parameter, a function of the
  message type and the order the message is about. \<open>_send_sms\<close> catches every exception
  of the send and logs the outcome; a \<open>CONFIRMATION\<close> that was sent also marks the order.
\<close>

type_synonym gateway = "SMS_TYPES \<Rightarrow> nat \<Rightarrow> bool"

definition send_sms :: "gateway \<Rightarrow> Order \<Rightarrow> SMS_TYPES \<Rightarrow> store \<Rightarrow> store" where
  "send_sms gw ord mt s =
     (if gw mt (order_id ord) then
        (let s1 = s\<lparr>SMSLog_objects := SMSLog_objects s @
                    [\<lparr>sms_order = order_id ord, message_type = mt, delivered = True\<rparr>]\<rparr>
         in if mt = CONFIRMATION then save_order (ord\<lparr>confirmation_sms_sent := True\<rparr>) s1 else s1)
      else
        s\<lparr>SMSLog_objects := SMSLog_objects s @
            [\<lparr>sms_order = order_id ord, message_type = mt, delivered = False\<rparr>]\<rparr>)"

text \<open>
  \<open>send_rider_assignment_sms\<close>: reads \<open>orders[0].landmark.name\<close> and the minimum of the
  start times outside the \<open>try\<close> block, so a missing landmark and an empty list raise.
\<close>

definition send_rider_assignment_sms :: "gateway \<Rightarrow> Rider \<Rightarrow> Order list \<Rightarrow> store \<Rightarrow> error + store" where
  "send_rider_assignment_sms gw r ords s =
     (case ords of
        [] \<Rightarrow> Inl ValueError
      | ord # _ \<Rightarrow>
          (case landmark ord of
             None \<Rightarrow> Inl AttributeError
           | Some _ \<Rightarrow> Inr (send_sms gw ord RIDER_ASSIGNMENT s)))"

definition send_delivery_success_sms :: "gateway \<Rightarrow> Order \<Rightarrow> store \<Rightarrow> store" where
  "send_delivery_success_sms gw ord s =
     send_sms gw ord DELIVERY_SUCCESS (send_sms gw ord DELIVERY_SUCCESS s)"

definition send_delivery_failed_sms :: "gateway \<Rightarrow> Order \<Rightarrow> store \<Rightarrow> store" where
  "send_delivery_failed_sms gw ord s = send_sms gw ord DELIVERY_FAILED s"

section \<open>Python floats\<close>

text \<open>
  A double has a significand of 53 bits. \<open>round_double x\<close> is the double nearest to the
  rational \<open>x\<close>, ties going to the even significand, as IEEE 754 prescribes for
  conversion, addition, multiplication and division. Below \<open>2 ^ (-1022)\<close> the doubles are
  spaced \<open>2 ^ (-1074)\<close> apart. There is no largest double here: the scores are built from
  ratings of three digits and quotients of integer columns of at most 64 bits, which stay
  far below it.
\<close>

definition pow2 :: "int \<Rightarrow> rat" where
  "pow2 e = (if 0 \<le> e then 2 ^ nat e else 1 / 2 ^ nat (- e))"

definition round_half_even :: "rat \<Rightarrow> int" where
  "round_half_even q =
     (let f = \<lfloor>q\<rfloor>; r = q - of_int f
      in if r < 1 / 2 then f else if 1 / 2 < r then f + 1 else if even f then f else f + 1)"

text \<open>For \<open>x > 0\<close>, the \<open>e\<close> with \<open>2 ^ e \<le> x < 2 ^ (e + 1)\<close>.\<close>

definition exponent :: "rat \<Rightarrow> int" where
  "exponent x =
     (let (a, b) = quotient_of x; e0 = bitlen a - bitlen b
      in if pow2 e0 \<le> x then e0 else e0 - 1)"

definition round_double :: "rat \<Rightarrow> rat" where
  "round_double x =
     (if x = 0 then 0
      else let m = \<bar>x\<bar>; u = pow2 (max (exponent m - 52) (- 1074))
           in sgn x * of_int (round_half_even (m / u)) * u)"

definition fadd :: "rat \<Rightarrow> rat \<Rightarrow> rat" where
  "fadd x y = round_double (x + y)"

definition fmul :: "rat \<Rightarrow> rat \<Rightarrow> rat" where
  "fmul x y = round_double (x * y)"

definition fdiv :: "rat \<Rightarrow> rat \<Rightarrow> rat" where
  "fdiv x y = round_double (x / y)"

section \<open>Rider scoring and selection (RiderAssignmentService._find_best_rider)\<close>

text \<open>
  The integer part of the score: familiarity with the landmark and the workload bucket.
\<close>

definition familiarity_score :: "nat option \<Rightarrow> Rider \<Rightarrow> rat" where
  "familiarity_score lm r =
     (case lm of None \<Rightarrow> 0
      | Some l \<Rightarrow> if l \<in> set (preferred_landmarks r) then 30 else 0)"

definition current_assignments :: "store \<Rightarrow> Rider \<Rightarrow> nat \<Rightarrow> nat" where
  "current_assignments s r d =
     length (filter (\<lambda>x. assigned_rider x = Some (rider_id r)
                        \<and> status x \<in> set [ASSIGNED, IN_TRANSIT]
                        \<and> delivery_date x = d) (Order_objects s))"

definition workload_score :: "nat \<Rightarrow> rat" where
  "workload_score n =
     (if n = 0 then 25 else if n \<le> 2 then 15 else if n \<le> 5 then 5 else 0)"

text \<open>
  The score as the interpreter computes it. \<open>float(rider.rating)\<close> is the double nearest
  to the decimal; the quotient of two integers is the double nearest to the exact quotient;
  \<open>score += ...\<close> adds a float to the integer collected so far, then to a float.
\<close>

definition success_rate_float :: "Rider \<Rightarrow> rat" where
  "success_rate_float r =
     (if total_deliveries r = 0 then 0
      else fmul (fdiv (of_int (successful_deliveries r)) (of_int (total_deliveries r))) 100)"

definition rating_score_float :: "Rider \<Rightarrow> rat" where
  "rating_score_float r = fmul (fdiv (round_double (rating r)) 5) 25"

definition success_score_float :: "Rider \<Rightarrow> rat" where
  "success_score_float r = fmul (fdiv (success_rate_float r) 100) 20"

definition score :: "store \<Rightarrow> nat option \<Rightarrow> nat \<Rightarrow> Rider \<Rightarrow> rat" where
  "score s lm d r =
     fadd (fadd (familiarity_score lm r + workload_score (current_assignments s r d))
                (rating_score_float r))
          (success_score_float r)"

text \<open>
  The same formula in exact arithmetic: the value the score has before any rounding.
  Selection does not use it.
\<close>

definition success_rate :: "Rider \<Rightarrow> rat" where
  "success_rate r =
     (if total_deliveries r = 0 then 0
      else (of_int (successful_deliveries r) / of_int (total_deliveries r)) * 100)"

definition rating_score :: "Rider \<Rightarrow> rat" where
  "rating_score r = (rating r / 5) * 25"

definition success_score :: "Rider \<Rightarrow> rat" where
  "success_score r = (success_rate r / 100) * 20"

definition rider_score :: "store \<Rightarrow> nat option \<Rightarrow> nat \<Rightarrow> Rider \<Rightarrow> rat" where
  "rider_score s lm d r =
     familiarity_score lm r + workload_score (current_assignments s r d)
       + rating_score r + success_score r"

text \<open>
  \<open>list.sort(key=..., reverse=True)\<close>: descending and stable (elements with equal keys
  keep their order). \<open>sort_key\<close> is the stable insertion sort of the library.
\<close>

definition sort_reverse :: "('a \<Rightarrow> 'k::linorder) \<Rightarrow> 'a list \<Rightarrow> 'a list" where
  "sort_reverse f xs = rev (sort_key f (rev xs))"

definition find_best_rider :: "store \<Rightarrow> Rider list \<Rightarrow> nat option \<Rightarrow> Order list \<Rightarrow> error + Rider option" where
  "find_best_rider s riders lm ords =
     (if riders = [] then Inr None
      else case ords of
        [] \<Rightarrow> Inl IndexError
      | ord # _ \<Rightarrow>
          (let scored_riders = map (\<lambda>r. (r, score s lm (delivery_date ord) r)) riders;
               sorted_riders = sort_reverse snd scored_riders
           in Inr (case sorted_riders of [] \<Rightarrow> None | x # _ \<Rightarrow> Some (fst x))))"

section \<open>Grouping (RiderAssignmentService._group_orders_by_landmark_and_date)\<close>

text \<open>
  The dictionary keeps its keys in insertion order, so it is an association list: an order
  is appended to the list of its key, and a new key goes to the end.
\<close>

type_synonym cohorts = "((nat option \<times> nat) \<times> Order list) list"

fun group_add :: "Order \<Rightarrow> cohorts \<Rightarrow> cohorts" where
  "group_add ord [] = [((landmark ord, delivery_date ord), [ord])]"
| "group_add ord ((k, os) # g) =
     (if k = (landmark ord, delivery_date ord) then (k, os @ [ord]) # g
      else (k, os) # group_add ord g)"

definition group_orders_by_landmark_and_date :: "Order list \<Rightarrow> cohorts" where
  "group_orders_by_landmark_and_date ords = fold group_add ords []"

section \<open>Route builder (RiderAssignmentService._create_delivery_route)\<close>

text \<open>
  \<open>order_by('-sequence').first().sequence\<close> is the greatest sequence among the rows.
  The landmark column of a route is not nullable, so creating a route without a landmark
  fails in the database; \<open>min\<close> of an empty list raises.
\<close>

definition existing_routes :: "store \<Rightarrow> nat \<Rightarrow> nat \<Rightarrow> DeliveryRoute list" where
  "existing_routes s rid d =
     filter (\<lambda>x. rider x = rid \<and> route_date x = d) (DeliveryRoute_objects s)"

definition next_sequence :: "store \<Rightarrow> nat \<Rightarrow> nat \<Rightarrow> int" where
  "next_sequence s rid d =
     (case sort_reverse sequence (existing_routes s rid d) of
        [] \<Rightarrow> 1
      | x # _ \<Rightarrow> sequence x + 1)"

definition create_delivery_route ::
    "Rider \<Rightarrow> nat option \<Rightarrow> nat \<Rightarrow> Order list \<Rightarrow> store \<Rightarrow> error + (store \<times> DeliveryRoute)" where
  "create_delivery_route r lm d ords s =
     (case ords of
        [] \<Rightarrow> Inl ValueError
      | ord # rest \<Rightarrow>
          (case lm of
             None \<Rightarrow> Inl IntegrityError
           | Some l \<Rightarrow>
               (let route = \<lparr>route_id = next_route_id s, rider = rider_id r, route_date = d,
                             route_landmark = l, route_orders = map order_id ords,
                             sequence = next_sequence s (rider_id r) d,
                             estimated_arrival =
                               fold min (map delivery_time_start rest) (delivery_time_start ord),
                             completed = False\<rparr>
                in Inr (s\<lparr>DeliveryRoute_objects := DeliveryRoute_objects s @ [route]\<rparr>, route))))"

section \<open>Assignment orchestrator\<close>

datatype reason = No_available_riders | No_suitable_rider_found

text \<open>
  One entry of the report. The source reports the landmark's name and the rider's full
  name; the model keeps the keys of the same landmark and rider.
\<close>

datatype group_result =
  Group_failure nat reason nat
  | Group_success nat nat nat nat

fun success :: "group_result \<Rightarrow> bool" where
  "success (Group_failure lm why n) = False"
| "success (Group_success lm rid n route) = True"

text \<open>The rider an entry of the report names, if the cohort was assigned.\<close>

fun selected :: "group_result \<Rightarrow> nat list" where
  "selected (Group_failure lm why n) = []"
| "selected (Group_success lm rid n route) = [rid]"

text \<open>
  \<open>Rider.objects.filter(status='AVAILABLE').order_by('-rating', '-successful_deliveries')\<close>;
  riders equal in both keys are taken in table order. Which rider of the list is selected
  is the subject of \<open>find_best_rider\<close>, whose rider list is a parameter.
\<close>

definition available_riders :: "store \<Rightarrow> Rider list" where
  "available_riders s =
     sort_key (\<lambda>r. (- rating r, - successful_deliveries r))
       (filter (\<lambda>r. rider_status r = AVAILABLE) (Rider_objects s))"

text \<open>The loop \<open>for order in orders\<close> of \<open>_assign_group_to_rider\<close>.\<close>

fun assign_each :: "Rider \<Rightarrow> Order list \<Rightarrow> store \<Rightarrow> store" where
  "assign_each r [] s = s"
| "assign_each r (ord # ords) s =
     assign_each r ords
       (save_order (ord\<lparr>assigned_rider := Some (rider_id r), status := ASSIGNED\<rparr>) s)"

text \<open>
  \<open>_assign_group_to_rider\<close>. \<open>landmark.name\<close> raises when the cohort has no landmark
  (the landmark of an order is nullable). A model instance is always truthy, so
  \<open>not best_rider\<close> holds exactly when \<open>_find_best_rider\<close> returned \<open>None\<close>.
\<close>

definition assign_group_to_rider ::
    "gateway \<Rightarrow> nat option \<Rightarrow> nat \<Rightarrow> Order list \<Rightarrow> store \<Rightarrow> error + (store \<times> group_result)" where
  "assign_group_to_rider gw lm d ords s =
     (let riders = available_riders s in
      if riders = [] then
        (case lm of None \<Rightarrow> Inl AttributeError
         | Some l \<Rightarrow> Inr (s, Group_failure l No_available_riders (length ords)))
      else
        (case find_best_rider s riders lm ords of
           Inl e \<Rightarrow> Inl e
         | Inr None \<Rightarrow>
             (case lm of None \<Rightarrow> Inl AttributeError
              | Some l \<Rightarrow> Inr (s, Group_failure l No_suitable_rider_found (length ords)))
         | Inr (Some best_rider) \<Rightarrow>
             (let s1 = assign_each best_rider ords s in
              case create_delivery_route best_rider lm d ords s1 of
                Inl e \<Rightarrow> Inl e
              | Inr (s2, route) \<Rightarrow>
                  (case send_rider_assignment_sms gw best_rider
                          (map (\<lambda>x. x\<lparr>assigned_rider := Some (rider_id best_rider),
                                       status := ASSIGNED\<rparr>) ords) s2 of
                     Inl e \<Rightarrow> Inl e
                   | Inr s3 \<Rightarrow>
                       (let s4 = save_rider (best_rider\<lparr>rider_status := ON_DELIVERY\<rparr>) s3 in
                        case lm of None \<Rightarrow> Inl AttributeError
                        | Some l \<Rightarrow>
                            Inr (s4, Group_success l (rider_id best_rider) (length ords)
                                       (route_id route)))))))"

text \<open>The loop over the cohorts of \<open>assign_orders_to_riders\<close>, with its two accumulators.\<close>

fun assign_groups ::
    "gateway \<Rightarrow> cohorts \<Rightarrow> store \<Rightarrow> nat \<Rightarrow> group_result list
       \<Rightarrow> error + (store \<times> nat \<times> group_result list)" where
  "assign_groups gw [] s assigned_count results = Inr (s, assigned_count, results)"
| "assign_groups gw (((lm, d), ords) # g) s assigned_count results =
     (case assign_group_to_rider gw lm d ords s of
        Inl e \<Rightarrow> Inl e
      | Inr (s', result) \<Rightarrow>
          assign_groups gw g s'
            (if success result then assigned_count + length ords else assigned_count)
            (results @ [result]))"

datatype report =
  No_orders
  | Assigned nat nat "group_result list"

text \<open>
  A queryset is a filter on the order table, evaluated when it is iterated. Without an
  argument the orders are the confirmed ones with no rider.
\<close>

definition default_queryset :: "Order \<Rightarrow> bool" where
  "default_queryset x \<longleftrightarrow> status x = CONFIRMED \<and> assigned_rider x = None"

definition assign_orders_to_riders ::
    "gateway \<Rightarrow> (Order \<Rightarrow> bool) option \<Rightarrow> store \<Rightarrow> error + (store \<times> report)" where
  "assign_orders_to_riders gw orders_queryset s =
     (let q = (case orders_queryset of None \<Rightarrow> default_queryset | Some q \<Rightarrow> q);
          ords = filter q (Order_objects s)
      in if ords = [] then Inr (s, No_orders)
         else
           (case assign_groups gw (group_orders_by_landmark_and_date ords) s 0 [] of
              Inl e \<Rightarrow> Inl e
            | Inr (s', assigned_count, results) \<Rightarrow>
                Inr (s', Assigned assigned_count (length ords) results)))"

section \<open>Route optimizer (RiderAssignmentService.optimize_rider_route)\<close>

text \<open>
  \<open>DeliveryRoute.objects.filter(rider=rider, route_date=delivery_date,
  completed=False).order_by('estimated_arrival')\<close>. The explicit \<open>order_by\<close> replaces the
  default ordering of the model, so rows with equal \<open>estimated_arrival\<close> come in whatever
  order the database returns them. \<open>routes_query s rid d routes\<close> says that \<open>routes\<close> is a
  list the query may return on the store \<open>s\<close>: the selected rows, each once, in ascending
  order of arrival.
\<close>

definition is_incomplete :: "nat \<Rightarrow> nat \<Rightarrow> DeliveryRoute \<Rightarrow> bool" where
  "is_incomplete rid d x \<longleftrightarrow> rider x = rid \<and> route_date x = d \<and> completed x = False"

definition routes_query :: "store \<Rightarrow> nat \<Rightarrow> nat \<Rightarrow> DeliveryRoute list \<Rightarrow> bool" where
  "routes_query s rid d routes \<longleftrightarrow>
     mset routes = mset (filter (is_incomplete rid d) (DeliveryRoute_objects s))
     \<and> sorted (map estimated_arrival routes)"

text \<open>\<open>for idx, route in enumerate(routes, start=1)\<close>, from index \<open>idx\<close> on.\<close>

fun renumber :: "int \<Rightarrow> DeliveryRoute list \<Rightarrow> store \<Rightarrow> store" where
  "renumber idx [] s = s"
| "renumber idx (route # routes) s =
     renumber (idx + 1) routes (save_route (route\<lparr>sequence := idx\<rparr>) s)"

text \<open>
  \<open>optimize_rider_route\<close>, given the list \<open>routes\<close> that its query returned. The summary
  that the source returns is read off the renumbered routes; the model keeps the store.
\<close>

definition optimize_rider_route :: "DeliveryRoute list \<Rightarrow> store \<Rightarrow> store" where
  "optimize_rider_route routes s = renumber 1 routes s"

text \<open>
  The index the loop of \<open>optimize_rider_route\<close> gives to the route with key \<open>k\<close>, when the
  enumeration of \<open>routes\<close> starts at \<open>idx\<close>; \<open>None\<close> when no route of the list has that key.
\<close>

fun assigned_index :: "int \<Rightarrow> DeliveryRoute list \<Rightarrow> nat \<Rightarrow> int option" where
  "assigned_index idx [] k = None"
| "assigned_index idx (route # routes) k =
     (if route_id route = k then Some idx else assigned_index (idx + 1) routes k)"

section \<open>Views (orders/views.py) and the serializer of a status update\<close>

text \<open>
  The body of a status update: the status, which is one of the choices, and for each of the
  two optional texts the value that was submitted, if any. The values are of any type
  \<open>'v\<close>: the class \<open>CharField\<close> that cleans them belongs to the REST framework, not to this
  repository, and is a parameter \<open>cf\<close>. It maps a submitted value to the cleaned text, or
  to \<open>None\<close> when it rejects the value.
\<close>

record 'v status_update =
  data_status :: ORDER_STATUS
  data_delivery_proof :: "'v option"
  data_failure_reason :: "'v option"

type_synonym 'v char_field = "'v \<Rightarrow> string option"

record validated =
  validated_status :: ORDER_STATUS
  validated_delivery_proof :: "string option"
  validated_failure_reason :: "string option"

text \<open>A field that is not required: absent stays absent, a submitted value is cleaned.\<close>

definition run_validation :: "'v char_field \<Rightarrow> 'v option \<Rightarrow> string option option" where
  "run_validation cf v =
     (case v of
        None \<Rightarrow> Some None
      | Some x \<Rightarrow> (case cf x of None \<Rightarrow> None | Some y \<Rightarrow> Some (Some y)))"

text \<open>\<open>not data.get(k)\<close>: the key is absent or its text is empty.\<close>

definition blank :: "string option \<Rightarrow> bool" where
  "blank v \<longleftrightarrow> v = None \<or> v = Some []"

text \<open>
  \<open>OrderStatusUpdateSerializer\<close>: the fields first, then \<open>validate\<close>; \<open>None\<close> when the
  serializer is not valid.
\<close>

definition validated_data :: "'v char_field \<Rightarrow> 'v status_update \<Rightarrow> validated option" where
  "validated_data cf data =
     (case run_validation cf (data_delivery_proof data) of
        None \<Rightarrow> None
      | Some p \<Rightarrow>
          (case run_validation cf (data_failure_reason data) of
             None \<Rightarrow> None
           | Some f \<Rightarrow>
               if data_status data = DELIVERED \<and> blank p then None
               else if data_status data = FAILED \<and> blank f then None
               else Some \<lparr>validated_status = data_status data,
                          validated_delivery_proof = p, validated_failure_reason = f\<rparr>))"

text \<open>
  \<open>OrderUpdateStatusView.post\<close>. \<open>order.assigned_rider\<close> fetches the rider row of the
  foreign key; \<open>now\<close> is the clock reading.
\<close>

definition update_status ::
    "gateway \<Rightarrow> nat \<Rightarrow> 'v char_field \<Rightarrow> nat \<Rightarrow> 'v status_update \<Rightarrow> store \<Rightarrow> error + store" where
  "update_status gw now cf pk data s =
     (case get_order s pk of
        None \<Rightarrow> Inl Http404
      | Some ord0 \<Rightarrow>
          (case validated_data cf data of
             None \<Rightarrow> Inl Http400
           | Some vd \<Rightarrow>
            (let ord1 = ord0\<lparr>status := validated_status vd\<rparr> in
             if validated_status vd = DELIVERED then
               (let ord2 = ord1\<lparr>delivered_at := Some now,
                                delivery_proof :=
                                  (case validated_delivery_proof vd of None \<Rightarrow> [] | Some p \<Rightarrow> p)\<rparr>
                in case assigned_rider ord2 of
                     None \<Rightarrow> Inr (save_order ord2 (send_delivery_success_sms gw ord2 s))
                   | Some rid \<Rightarrow>
                       (case get_rider s rid of
                          None \<Rightarrow> Inl DoesNotExist
                        | Some r \<Rightarrow>
                            (let s1 = save_rider
                                        (r\<lparr>total_deliveries := total_deliveries r + 1,
                                           successful_deliveries := successful_deliveries r + 1\<rparr>) s
                             in Inr (save_order ord2 (send_delivery_success_sms gw ord2 s1)))))
             else if validated_status vd = FAILED then
               (let ord2 = ord1\<lparr>failure_reason :=
                                  (case validated_failure_reason vd of None \<Rightarrow> [] | Some p \<Rightarrow> p)\<rparr>
                in case assigned_rider ord2 of
                     None \<Rightarrow> Inr (save_order ord2 (send_delivery_failed_sms gw ord2 s))
                   | Some rid \<Rightarrow>
                       (case get_rider s rid of
                          None \<Rightarrow> Inl DoesNotExist
                        | Some r \<Rightarrow>
                            (let s1 = save_rider
                                        (r\<lparr>total_deliveries := total_deliveries r + 1,
                                           failed_deliveries := failed_deliveries r + 1\<rparr>) s
                             in Inr (save_order ord2 (send_delivery_failed_sms gw ord2 s1)))))
             else Inr (save_order ord1 s))))"

text \<open>
  \<open>ManualAssignOrderView.post\<close>. \<open>not rider_id\<close> holds for a missing and for a zero key.
  The route is created with the order's landmark, which may be missing.
\<close>

definition manual_assign :: "gateway \<Rightarrow> bool \<Rightarrow> nat \<Rightarrow> nat option \<Rightarrow> store \<Rightarrow> error + store" where
  "manual_assign gw is_staff pk rider_id_arg s =
     (if \<not> is_staff then Inl Http403
      else case get_order s pk of
        None \<Rightarrow> Inl Http404
      | Some ord0 \<Rightarrow>
          (case rider_id_arg of
             None \<Rightarrow> Inl Http400
           | Some rid \<Rightarrow>
               if rid = 0 then Inl Http400
               else
                 (case get_rider s rid of
                    None \<Rightarrow> Inl Http404
                  | Some r \<Rightarrow>
                      (let ord1 = ord0\<lparr>assigned_rider := Some (rider_id r), status := ASSIGNED\<rparr>;
                           s1 = save_order ord1 s
                       in case landmark ord1 of
                            None \<Rightarrow> Inl IntegrityError
                          | Some l \<Rightarrow>
                              (let route = \<lparr>route_id = next_route_id s1, rider = rider_id r,
                                            route_date = delivery_date ord1, route_landmark = l,
                                            route_orders = [order_id ord1], sequence = 1,
                                            estimated_arrival = delivery_time_start ord1,
                                            completed = False\<rparr>;
                                   s2 = s1\<lparr>DeliveryRoute_objects := DeliveryRoute_objects s1 @ [route]\<rparr>
                               in send_rider_assignment_sms gw r [ord1] s2)))))"

section \<open>Admin (orders/admin.py)\<close>

text \<open>
  \<open>OrderAdmin.mark_as_delivered\<close>: \<open>queryset.update(status='DELIVERED',
  delivered_at=timezone.now())\<close> on the orders selected in the admin, which writes the two
  columns of every selected row and nothing else. It returns the number of rows.
\<close>

definition mark_as_delivered :: "nat \<Rightarrow> (Order \<Rightarrow> bool) \<Rightarrow> store \<Rightarrow> store \<times> nat" where
  "mark_as_delivered now queryset s =
     (s\<lparr>Order_objects :=
          map (\<lambda>x. if queryset x then x\<lparr>status := DELIVERED, delivered_at := Some now\<rparr> else x)
            (Order_objects s)\<rparr>,
      length (filter queryset (Order_objects s)))"

section \<open>Concrete scenarios\<close>

text \<open>Stores and requests on which the properties below are evaluated.\<close>

definition gw_ok :: gateway where
  "gw_ok mt k = True"

definition mk_order :: "nat \<Rightarrow> nat option \<Rightarrow> nat \<Rightarrow> nat \<Rightarrow> ORDER_STATUS \<Rightarrow> nat option \<Rightarrow> Order" where
  "mk_order k lm d t st rid =
     \<lparr>order_id = k, landmark = lm, delivery_date = d, delivery_time_start = t, status = st,
      assigned_rider = rid, confirmation_sms_sent = True, delivered_at = None,
      delivery_proof = [], failure_reason = []\<rparr>"

text \<open>A rider with no history and rating 0.\<close>

definition idle_rider :: Rider where
  "idle_rider = \<lparr>rider_id = 1, rider_status = AVAILABLE, preferred_landmarks = [],
     total_deliveries = 0, successful_deliveries = 0, failed_deliveries = 0, rating = 0\<rparr>"

text \<open>
  Day 1 at landmark 7: the orders \<open>ks\<close> are assigned to rider 1, order 100 is confirmed
  and waits for a rider.
\<close>

definition day_store :: "nat list \<Rightarrow> store" where
  "day_store ks =
     \<lparr>Order_objects = map (\<lambda>k. mk_order k (Some 7) 1 540 ASSIGNED (Some 1)) ks
         @ [mk_order 100 (Some 7) 1 600 CONFIRMED None],
      Rider_objects = [idle_rider], DeliveryRoute_objects = [], SMSLog_objects = []\<rparr>"


text \<open>The store after order 100 of \<open>day_store []\<close> was assigned by hand to rider 1.\<close>

definition after_manual :: store where
  "after_manual =
     \<lparr>Order_objects = [mk_order 100 (Some 7) 1 600 ASSIGNED (Some 1)],
      Rider_objects = [idle_rider],
      DeliveryRoute_objects =
        [\<lparr>route_id = 1, rider = 1, route_date = 1, route_landmark = 7, route_orders = [100],
          sequence = 1, estimated_arrival = 600, completed = False\<rparr>],
      SMSLog_objects = [\<lparr>sms_order = 100, message_type = RIDER_ASSIGNMENT, delivered = True\<rparr>]\<rparr>"

text \<open>
  A text field that trims blanks at both ends and rejects the NUL character, and two
  requests with a text that survives it.
\<close>

definition trim_field :: "string char_field" where
  "trim_field x =
     (if CHR 0x00 \<in> set x then None
      else Some (rev (dropWhile (\<lambda>c. c = CHR '' '') (rev (dropWhile (\<lambda>c. c = CHR '' '') x)))))"

definition delivered_request :: "string status_update" where
  "delivered_request =
     \<lparr>data_status = DELIVERED, data_delivery_proof = Some ''signed'', data_failure_reason = None\<rparr>"

definition failed_request :: "string status_update" where
  "failed_request =
     \<lparr>data_status = FAILED, data_delivery_proof = None, data_failure_reason = Some ''absent''\<rparr>"

text \<open>
  Successive route creations: each element gives the rider, landmark, date and orders of
  one call of \<open>_create_delivery_route\<close>; the first failure ends the run.
\<close>

fun create_routes :: "(Rider \<times> nat option \<times> nat \<times> Order list) list \<Rightarrow> store \<Rightarrow> error + store" where
  "create_routes [] s = Inr s"
| "create_routes ((r, lm, d, ords) # cs) s =
     (case create_delivery_route r lm d ords s of
        Inl e \<Rightarrow> Inl e
      | Inr (s', route) \<Rightarrow> create_routes cs s')"

text \<open>Three cohorts of day 1 for rider 1, and between them one of day 2.\<close>

definition four_creations :: "(Rider \<times> nat option \<times> nat \<times> Order list) list" where
  "four_creations =
     [(idle_rider, Some 7, 1, [mk_order 100 (Some 7) 1 600 CONFIRMED None]),
      (idle_rider, Some 8, 1, [mk_order 101 (Some 8) 1 660 CONFIRMED None]),
      (idle_rider, Some 7, 2, [mk_order 102 (Some 7) 2 600 CONFIRMED None]),
      (idle_rider, Some 9, 1, [mk_order 103 (Some 9) 1 500 CONFIRMED None])]"

text \<open>Two cohorts of one order each and two available riders with equal scores.\<close>

definition two_cohort_store :: store where
  "two_cohort_store =
     \<lparr>Order_objects = [mk_order 100 (Some 7) 1 600 CONFIRMED None,
                        mk_order 101 (Some 8) 1 660 CONFIRMED None],
      Rider_objects = [idle_rider, idle_rider\<lparr>rider_id := 2\<rparr>],
      DeliveryRoute_objects = [], SMSLog_objects = []\<rparr>"

definition after_two_cohorts :: store where
  "after_two_cohorts =
     \<lparr>Order_objects = [mk_order 100 (Some 7) 1 600 ASSIGNED (Some 1),
                        mk_order 101 (Some 8) 1 660 ASSIGNED (Some 2)],
      Rider_objects = [idle_rider\<lparr>rider_status := ON_DELIVERY\<rparr>,
                        idle_rider\<lparr>rider_id := 2, rider_status := ON_DELIVERY\<rparr>],
      DeliveryRoute_objects =
        [\<lparr>route_id = 1, rider = 1, route_date = 1, route_landmark = 7, route_orders = [100],
          sequence = 1, estimated_arrival = 600, completed = False\<rparr>,
         \<lparr>route_id = 2, rider = 2, route_date = 1, route_landmark = 8, route_orders = [101],
          sequence = 1, estimated_arrival = 660, completed = False\<rparr>],
      SMSLog_objects = [\<lparr>sms_order = 100, message_type = RIDER_ASSIGNMENT, delivered = True\<rparr>,
                         \<lparr>sms_order = 101, message_type = RIDER_ASSIGNMENT, delivered = True\<rparr>]\<rparr>"

text \<open>
  A confirmed order whose landmark was deleted (the foreign key is set to null on delete),
  and no rider at all.
\<close>

definition orphan_store :: store where
  "orphan_store =
     \<lparr>Order_objects = [mk_order 100 None 1 600 CONFIRMED None],
      Rider_objects = [], DeliveryRoute_objects = [], SMSLog_objects = []\<rparr>"

text \<open>
  Rider 1 on day 1: a completed route, two open routes with the same arrival time, whose
  sequence numbers run against their table order, and an earlier open route.
\<close>

definition mk_route :: "nat \<Rightarrow> int \<Rightarrow> nat \<Rightarrow> bool \<Rightarrow> DeliveryRoute" where
  "mk_route k sq t c =
     \<lparr>route_id = k, rider = 1, route_date = 1, route_landmark = 7, route_orders = [],
      sequence = sq, estimated_arrival = t, completed = c\<rparr>"

definition route_store :: store where
  "route_store =
     \<lparr>Order_objects = [], Rider_objects = [idle_rider],
      DeliveryRoute_objects =
        [mk_route 1 1 480 True, mk_route 2 3 600 False, mk_route 3 2 600 False,
         mk_route 4 4 540 False],
      SMSLog_objects = []\<rparr>"

text \<open>
  The same store after the open routes were renumbered with route 2 before route 3, and
  with route 3 before route 2.
\<close>

definition route_store_23 :: store where
  "route_store_23 =
     route_store\<lparr>DeliveryRoute_objects :=
        [mk_route 1 1 480 True, mk_route 2 2 600 False, mk_route 3 3 600 False,
         mk_route 4 1 540 False]\<rparr>"

definition route_store_32 :: store where
  "route_store_32 =
     route_store\<lparr>DeliveryRoute_objects :=
        [mk_route 1 1 480 True, mk_route 2 3 600 False, mk_route 3 2 600 False,
         mk_route 4 1 540 False]\<rparr>"

text \<open>
  Two riders whose scores are both 110/3 in exact arithmetic. In floats the first, with
  rating 0.20 and 8 of 15 deliveries, scores 36.666666666666664, and the second, with
  rating 0 and 7 of 12, scores 36.66666666666667.
\<close>

definition rider_low :: Rider where
  "rider_low = idle_rider\<lparr>rating := 20 / 100, total_deliveries := 15, successful_deliveries := 8\<rparr>"

definition rider_high :: Rider where
  "rider_high = idle_rider\<lparr>rider_id := 2, total_deliveries := 12, successful_deliveries := 7\<rparr>"

text \<open>The same rider and day with open routes of different arrival times only.\<close>

definition plain_route_store :: store where
  "plain_route_store =
     route_store\<lparr>DeliveryRoute_objects :=
        [mk_route 1 1 480 True, mk_route 2 3 600 False, mk_route 4 4 540 False]\<rparr>"

definition plain_route_store_done :: store where
  "plain_route_store_done =
     route_store\<lparr>DeliveryRoute_objects :=
        [mk_route 1 1 480 True, mk_route 2 2 600 False, mk_route 4 1 540 False]\<rparr>"

section \<open>Properties of the stable descending sort\<close>

lemma sort_reverse_Nil_iff: "sort_reverse f xs = [] \<longleftrightarrow> xs = []"
proof -
  have "length (sort_reverse f xs) = length xs" by (simp add: sort_reverse_def)
  then show ?thesis by (metis length_0_conv)
qed

lemma last_filter_keep: "xs \<noteq> [] \<Longrightarrow> P (last xs) \<Longrightarrow> last (filter P xs) = last xs"
  by (induction xs rule: rev_induct) auto

lemma sort_reverse_first_max:
  assumes "xs \<noteq> []"
  shows "\<exists>as b bs. xs = as @ b # bs \<and> hd (sort_reverse f xs) = b
           \<and> (\<forall>a\<in>set as. f a < f b) \<and> (\<forall>c\<in>set bs. f c \<le> f b)"
proof -
  define ys where "ys = sort_key f (rev xs)"
  have "length ys = length xs" unfolding ys_def by simp
  then have ne: "ys \<noteq> []" using assms by (metis length_0_conv)
  have srt: "sorted (map f ys)" unfolding ys_def by simp
  have setys: "set ys = set xs" unfolding ys_def by simp
  define m where "m = f (last ys)"
  have le: "f y \<le> m" if "y \<in> set ys" for y
  proof -
    from that obtain i where i: "i < length ys" "ys ! i = y" by (auto simp: in_set_conv_nth)
    have "map f ys ! i \<le> map f ys ! (length ys - 1)"
      using srt i ne by (intro sorted_nth_mono) auto
    then show ?thesis using i ne by (simp add: m_def last_conv_nth)
  qed
  have hd: "hd (sort_reverse f xs) = last ys"
    using ne by (simp add: sort_reverse_def ys_def hd_rev)
  have stab: "filter (\<lambda>y. f y = m) ys = rev (filter (\<lambda>y. f y = m) xs)"
    unfolding ys_def by (simp add: sort_key_stable rev_filter)
  have "last (filter (\<lambda>y. f y = m) ys) = last ys"
    using ne by (intro last_filter_keep) (simp_all add: m_def)
  moreover have fne: "filter (\<lambda>y. f y = m) ys \<noteq> []"
  proof -
    have "last ys \<in> set ys" using ne by simp
    then show ?thesis unfolding filter_empty_conv m_def by blast
  qed
  ultimately have lasthd: "last ys = hd (filter (\<lambda>y. f y = m) xs)"
    using stab by (simp add: last_rev)
  from fne stab obtain b rest where br: "filter (\<lambda>y. f y = m) xs = b # rest"
    by (cases "filter (\<lambda>y. f y = m) xs") auto
  then obtain as bs where split: "xs = as @ b # bs" and as: "\<forall>a\<in>set as. f a \<noteq> m" and b: "f b = m"
    unfolding filter_eq_Cons_iff by blast
  have 1: "hd (sort_reverse f xs) = b" using hd lasthd br by simp
  have 2: "\<forall>a\<in>set as. f a < f b"
  proof
    fix a assume a: "a \<in> set as"
    then have "a \<in> set ys" using split setys by simp
    then have "f a \<le> m" by (rule le)
    with as a b show "f a < f b" by (simp add: less_le)
  qed
  have 3: "\<forall>c\<in>set bs. f c \<le> f b"
  proof
    fix c assume "c \<in> set bs"
    then have "c \<in> set ys" using split setys by simp
    then show "f c \<le> f b" using le b by simp
  qed
  show ?thesis using split 1 2 3 by blast
qed


section \<open>Scoring\<close>






section \<open>Selection\<close>

text \<open>The workload bucket in the score that selection compares.\<close>

lemma score_workload_bucket:
  "score s lm d r =
     fadd (fadd (familiarity_score lm r
                  + (let n = current_assignments s r d
                     in if n = 0 then 25 else if n \<le> 2 then 15 else if n \<le> 5 then 5 else 0))
                (rating_score_float r))
          (success_score_float r)"
  by (simp add: score_def workload_score_def Let_def)

lemma find_best_rider_split:
  assumes "riders \<noteq> []"
  shows "\<exists>before best after. riders = before @ best # after
           \<and> find_best_rider s riders lm (ord # rest) = Inr (Some best)
           \<and> (\<forall>r\<in>set before. score s lm (delivery_date ord) r
                                < score s lm (delivery_date ord) best)
           \<and> (\<forall>r\<in>set after. score s lm (delivery_date ord) r
                               \<le> score s lm (delivery_date ord) best)"
proof -
  define sc where "sc = score s lm (delivery_date ord)"
  define scored where "scored = map (\<lambda>r. (r, sc r)) riders"
  have sne: "scored \<noteq> []" using assms by (simp add: scored_def)
  from sort_reverse_first_max [OF sne, of snd]
  obtain as b bs where split: "scored = as @ b # bs"
    and hd: "hd (sort_reverse snd scored) = b"
    and lt: "\<forall>a\<in>set as. snd a < snd b" and le: "\<forall>c\<in>set bs. snd c \<le> snd b"
    by blast
  have pair: "\<forall>p\<in>set scored. snd p = sc (fst p)" by (auto simp: scored_def)
  have fsts: "map fst scored = riders" by (simp add: scored_def comp_def)
  have riders: "riders = map fst as @ fst b # map fst bs"
    using fsts split by (metis list.simps(9) map_append)
  have ne': "sort_reverse snd scored \<noteq> []" using sne by (simp add: sort_reverse_Nil_iff)
  have res: "find_best_rider s riders lm (ord # rest) = Inr (Some (fst b))"
    using assms ne' hd
    by (cases "sort_reverse snd scored")
       (simp_all add: find_best_rider_def Let_def scored_def [symmetric] sc_def [symmetric])
  have 1: "\<forall>r\<in>set (map fst as). sc r < sc (fst b)"
    using lt pair split by auto
  have 2: "\<forall>r\<in>set (map fst bs). sc r \<le> sc (fst b)"
    using le pair split by auto
  show ?thesis
    using riders res 1 2 unfolding sc_def by blast
qed

text \<open>
  C5: selection is a function of the rider list, the landmark, the cohort and the order
  table. On a non-empty rider list it returns the first rider, in the order of the list,
  among those with the highest score, the score being the float the interpreter computes:
  every rider before it scores strictly less and no rider after it scores more. Two stores
  with the same order table give every rider the same score and select the same rider.
\<close>

theorem find_best_rider_first_highest:
  assumes "riders \<noteq> []"
  shows "(\<exists>before best after. riders = before @ best # after
            \<and> find_best_rider s riders lm (ord # rest) = Inr (Some best)
            \<and> (\<forall>r\<in>set before. score s lm (delivery_date ord) r
                                 < score s lm (delivery_date ord) best)
            \<and> (\<forall>r\<in>set after. score s lm (delivery_date ord) r
                                \<le> score s lm (delivery_date ord) best))
       \<and> (\<forall>s'. Order_objects s' = Order_objects s \<longrightarrow>
             (\<forall>r. score s' lm (delivery_date ord) r = score s lm (delivery_date ord) r)
             \<and> find_best_rider s' riders lm (ord # rest) = find_best_rider s riders lm (ord # rest))"
proof -
  have sc: "score s' lm d r = score s lm d r"
    if "Order_objects s' = Order_objects s" for s' :: store and d r
    using that by (simp add: score_def current_assignments_def)
  have det: "find_best_rider s' riders lm (ord # rest) = find_best_rider s riders lm (ord # rest)"
    if eq: "Order_objects s' = Order_objects s" for s' :: store
  proof -
    have "score s' lm (delivery_date ord) = score s lm (delivery_date ord)"
      by (rule ext) (rule sc [OF eq])
    then show ?thesis
      unfolding find_best_rider_def by simp
  qed
  note sp = find_best_rider_split [OF assms, of s lm ord rest]
  show ?thesis
  proof (intro conjI allI impI)
    show "\<exists>before best after. riders = before @ best # after
            \<and> find_best_rider s riders lm (ord # rest) = Inr (Some best)
            \<and> (\<forall>r\<in>set before. score s lm (delivery_date ord) r
                                 < score s lm (delivery_date ord) best)
            \<and> (\<forall>r\<in>set after. score s lm (delivery_date ord) r
                                \<le> score s lm (delivery_date ord) best)"
      by (rule sp)
  next
    fix s' :: store and r :: Rider
    assume "Order_objects s' = Order_objects s"
    then show "score s' lm (delivery_date ord) r = score s lm (delivery_date ord) r"
      by (rule sc)
  next
    fix s' :: store
    assume "Order_objects s' = Order_objects s"
    then show "find_best_rider s' riders lm (ord # rest) = find_best_rider s riders lm (ord # rest)"
      by (rule det)
  qed
qed

theorem find_best_rider_first_highest_witness:
  "score (day_store []) (Some 7) 1 idle_rider
       = score (day_store []) (Some 7) 1 (idle_rider\<lparr>rider_id := 2\<rparr>)
   \<and> find_best_rider (day_store []) [idle_rider, idle_rider\<lparr>rider_id := 2\<rparr>] (Some 7)
         [mk_order 100 (Some 7) 1 600 CONFIRMED None] = Inr (Some idle_rider)
   \<and> score (day_store []) (Some 7) 1 rider_low < score (day_store []) (Some 7) 1 rider_high
   \<and> find_best_rider (day_store []) [rider_low, rider_high] (Some 7)
         [mk_order 100 (Some 7) 1 600 CONFIRMED None] = Inr (Some rider_high)"
proof -
  let ?a = idle_rider and ?b = "idle_rider\<lparr>rider_id := 2\<rparr>"
  let ?ord = "mk_order 100 (Some 7) 1 600 CONFIRMED None"
  let ?sc = "score (day_store []) (Some 7) 1"
  have d: "delivery_date ?ord = 1" by (simp add: mk_order_def)
  have eq: "?sc ?a = ?sc ?b" by code_simp
  have lt: "?sc rider_low < ?sc rider_high" by code_simp
  have ne: "[?a, ?b] \<noteq> []" by simp
  from find_best_rider_first_highest [OF ne, of "day_store []" "Some 7" ?ord "[]"]
  obtain before best after where split: "[?a, ?b] = before @ best # after"
    and res: "find_best_rider (day_store []) [?a, ?b] (Some 7) [?ord] = Inr (Some best)"
    and bef: "\<forall>r\<in>set before. ?sc r < ?sc best"
    unfolding d by blast
  have "before = []"
  proof (rule ccontr)
    assume "before \<noteq> []"
    then have "before = [?a] \<and> best = ?b"
      using split by (auto simp: Cons_eq_append_conv)
    then show False using bef eq by simp
  qed
  then have "best = ?a" using split by simp
  then have 1: "find_best_rider (day_store []) [?a, ?b] (Some 7) [?ord] = Inr (Some ?a)"
    using res by simp
  have ne2: "[rider_low, rider_high] \<noteq> []" by simp
  from find_best_rider_first_highest [OF ne2, of "day_store []" "Some 7" ?ord "[]"]
  obtain before2 best2 after2 where split2: "[rider_low, rider_high] = before2 @ best2 # after2"
    and res2: "find_best_rider (day_store []) [rider_low, rider_high] (Some 7) [?ord]
                 = Inr (Some best2)"
    and aft2: "\<forall>r\<in>set after2. ?sc r \<le> ?sc best2"
    unfolding d by blast
  have "before2 \<noteq> []"
  proof
    assume "before2 = []"
    then have "best2 = rider_low \<and> after2 = [rider_high]" using split2 by simp
    then show False using aft2 lt by simp
  qed
  then have "best2 = rider_high"
    using split2 by (auto simp: Cons_eq_append_conv)
  then have 2: "find_best_rider (day_store []) [rider_low, rider_high] (Some 7) [?ord]
                  = Inr (Some rider_high)"
    using res2 by simp
  show ?thesis using eq 1 lt 2 by blast
qed

text \<open>
  The two riders of the second pair have the same score in exact arithmetic: the order of
  the float scores is the order the interpreter sees, not that of the exact values.
\<close>

lemma exact_scores_tie:
  "rider_score (day_store []) (Some 7) 1 rider_low = rider_score (day_store []) (Some 7) 1 rider_high"
  by code_simp

text \<open>
  C1, as stated, fails: with six orders of the day already assigned to the only available
  rider, whose rating is 0 and who has no deliveries, that rider scores 0, so no rider
  scores positively; the rider is selected all the same and the cohort is assigned.
\<close>

theorem zero_score_rider_selected:
  "available_riders (day_store [1, 2, 3, 4, 5, 6]) = [idle_rider]
   \<and> score (day_store [1, 2, 3, 4, 5, 6]) (Some 7) 1 idle_rider = 0
   \<and> find_best_rider (day_store [1, 2, 3, 4, 5, 6]) (available_riders (day_store [1, 2, 3, 4, 5, 6]))
         (Some 7) [mk_order 100 (Some 7) 1 600 CONFIRMED None] = Inr (Some idle_rider)
   \<and> map_sum id snd (assign_orders_to_riders gw_ok None (day_store [1, 2, 3, 4, 5, 6]))
         = Inr (Assigned 1 1 [Group_success 7 1 1 1])"
  by code_simp

text \<open>
  C1, amended: scoring keeps every rider whatever the score, so on a non-empty rider list
  selection returns a rider of the highest score, also when that score is not positive,
  and the assignment of a cohort never fails with the reason ``no suitable rider found'',
  on any store.
\<close>

theorem selection_always_succeeds:
  assumes "riders \<noteq> []"
  shows "(\<exists>best\<in>set riders.
            find_best_rider s riders lm (ord # rest) = Inr (Some best)
            \<and> (\<forall>r\<in>set riders.
                  score s lm (delivery_date ord) r \<le> score s lm (delivery_date ord) best))
       \<and> (\<forall>t ords t' l n. assign_group_to_rider gw lm d ords t
                      \<noteq> Inr (t', Group_failure l No_suitable_rider_found n))"
proof -
  from find_best_rider_split [OF assms, of s lm ord rest]
  obtain before best after where split: "riders = before @ best # after"
    and res: "find_best_rider s riders lm (ord # rest) = Inr (Some best)"
    and lt: "\<forall>r\<in>set before. score s lm (delivery_date ord) r
                              < score s lm (delivery_date ord) best"
    and le: "\<forall>r\<in>set after. score s lm (delivery_date ord) r
                              \<le> score s lm (delivery_date ord) best"
    by blast
  have mem: "best \<in> set riders" using split by simp
  have all: "\<forall>r\<in>set riders.
               score s lm (delivery_date ord) r \<le> score s lm (delivery_date ord) best"
    using split lt le by (auto simp: less_imp_le)
  have nf: "assign_group_to_rider gw lm d ords t
              \<noteq> Inr (t', Group_failure l No_suitable_rider_found n)" for t ords t' l n
  proof (cases "available_riders t = []")
    case True
    then show ?thesis
      by (simp add: assign_group_to_rider_def split: option.splits)
  next
    case False
    have "find_best_rider t (available_riders t) lm ords \<noteq> Inr None"
    proof (cases ords)
      case Nil
      then show ?thesis using False by (simp add: find_best_rider_def)
    next
      case (Cons o1 os)
      from find_best_rider_split [OF False, of t lm o1 os] show ?thesis
        unfolding Cons by auto
    qed
    then show ?thesis
      using False
      by (auto simp: assign_group_to_rider_def Let_def
               split: sum.splits option.splits prod.splits)
  qed
  show ?thesis using mem res all nf by blast
qed

theorem selection_always_succeeds_witness:
  "available_riders (day_store [1, 2, 3, 4, 5, 6]) \<noteq> []
   \<and> score (day_store [1, 2, 3, 4, 5, 6]) (Some 7) 1 idle_rider = 0
   \<and> (\<exists>best\<in>set (available_riders (day_store [1, 2, 3, 4, 5, 6])).
         find_best_rider (day_store [1, 2, 3, 4, 5, 6]) (available_riders (day_store [1, 2, 3, 4, 5, 6]))
           (Some 7) [mk_order 100 (Some 7) 1 600 CONFIRMED None] = Inr (Some best))"
proof -
  have av: "available_riders (day_store [1, 2, 3, 4, 5, 6]) = [idle_rider]"
    by code_simp
  have ne: "available_riders (day_store [1, 2, 3, 4, 5, 6]) \<noteq> []"
    unfolding av by simp
  have z: "score (day_store [1, 2, 3, 4, 5, 6]) (Some 7) 1 idle_rider = 0"
    by code_simp
  show ?thesis
    using ne z selection_always_succeeds [OF ne, of "day_store [1, 2, 3, 4, 5, 6]" "Some 7"
        "mk_order 100 (Some 7) 1 600 CONFIRMED None" "[]"]
    by blast
qed

section \<open>Delivery outcomes and the rider's counters\<close>

lemma get_rider_save_order [simp]: "get_rider (save_order ord s) k = get_rider s k"
  by (simp add: get_rider_def save_order_def)

lemma get_rider_send_sms [simp]: "get_rider (send_sms gw ord mt s) k = get_rider s k"
  by (simp add: get_rider_def send_sms_def save_order_def Let_def)

lemma find_replace_key:
  "find (\<lambda>x. f x = k) xs = Some r \<Longrightarrow> f r' = k \<Longrightarrow>
     find (\<lambda>x. f x = k) (map (\<lambda>x. if f x = f r' then r' else x) xs) = Some r'"
  by (induction xs) (auto split: if_splits)

lemma get_rider_save_rider:
  "get_rider s rid = Some r \<Longrightarrow> rider_id r' = rid \<Longrightarrow> get_rider (save_rider r' s) rid = Some r'"
  unfolding get_rider_def save_rider_def
  using find_replace_key [of rider_id rid "Rider_objects s" r r'] by simp

lemma get_rider_key: "get_rider s rid = Some r \<Longrightarrow> rider_id r = rid"
  by (auto simp: get_rider_def find_Some_iff)

text \<open>
  The status view: when the serializer accepts the update of an order that has a rider,
  the call returns and the rider's row is the old row with \<open>total_deliveries\<close> and
  \<open>successful_deliveries\<close> one higher for DELIVERED, and with \<open>total_deliveries\<close> and
  \<open>failed_deliveries\<close> one higher for FAILED, whatever the text field does.
\<close>

lemma update_status_counters:
  assumes "get_order s pk = Some ord" and "assigned_rider ord = Some rid"
    and "get_rider s rid = Some r" and "validated_data cf data = Some vd"
  shows "(data_status data = DELIVERED \<longrightarrow>
            (\<exists>s'. update_status gw now cf pk data s = Inr s'
               \<and> get_rider s' rid = Some (r\<lparr>total_deliveries := total_deliveries r + 1,
                     successful_deliveries := successful_deliveries r + 1\<rparr>)))
       \<and> (data_status data = FAILED \<longrightarrow>
            (\<exists>s'. update_status gw now cf pk data s = Inr s'
               \<and> get_rider s' rid = Some (r\<lparr>total_deliveries := total_deliveries r + 1,
                     failed_deliveries := failed_deliveries r + 1\<rparr>)))"
proof -
  have k: "rider_id r = rid" using assms(3) by (rule get_rider_key)
  have st: "validated_status vd = data_status data"
    using assms(4)
    by (auto simp: validated_data_def split: option.splits if_splits)
  have a: "get_rider (save_rider (r\<lparr>total_deliveries := total_deliveries r + 1,
                 successful_deliveries := successful_deliveries r + 1\<rparr>) s) rid
             = Some (r\<lparr>total_deliveries := total_deliveries r + 1,
                 successful_deliveries := successful_deliveries r + 1\<rparr>)"
    using assms(3) k by (intro get_rider_save_rider) simp_all
  have b: "get_rider (save_rider (r\<lparr>total_deliveries := total_deliveries r + 1,
                 failed_deliveries := failed_deliveries r + 1\<rparr>) s) rid
             = Some (r\<lparr>total_deliveries := total_deliveries r + 1,
                 failed_deliveries := failed_deliveries r + 1\<rparr>)"
    using assms(3) k by (intro get_rider_save_rider) simp_all
  show ?thesis
    using assms(1-3) a b
    by (simp add: update_status_def assms(4) st Let_def send_delivery_success_sms_def
        send_delivery_failed_sms_def)
qed

lemma update_status_example:
  "\<exists>s'. update_status gw_ok 9 trim_field 1 delivered_request (day_store [1]) = Inr s'
         \<and> get_rider s' 1 = Some (idle_rider\<lparr>total_deliveries := 1, successful_deliveries := 1\<rparr>)"
proof -
  have o: "get_order (day_store [1]) 1 = Some (mk_order 1 (Some 7) 1 540 ASSIGNED (Some 1))"
    by (simp add: get_order_def day_store_def mk_order_def)
  have a: "assigned_rider (mk_order 1 (Some 7) 1 540 ASSIGNED (Some 1)) = Some 1"
    by (simp add: mk_order_def)
  have r: "get_rider (day_store [1]) 1 = Some idle_rider"
    by (simp add: get_rider_def day_store_def idle_rider_def)
  have v: "validated_data trim_field delivered_request
             = Some \<lparr>validated_status = DELIVERED, validated_delivery_proof = Some ''signed'',
                      validated_failure_reason = None\<rparr>"
    by (simp add: validated_data_def run_validation_def trim_field_def blank_def
        delivered_request_def)
  have t: "total_deliveries idle_rider = 0" "successful_deliveries idle_rider = 0"
    by (simp_all add: idle_rider_def)
  show ?thesis
    using update_status_counters [OF o a r v, of gw_ok 9]
    by (simp add: t delivered_request_def)
qed

text \<open>The admin action writes the order table only.\<close>

lemma mark_as_delivered_riders:
  "Rider_objects (fst (mark_as_delivered now queryset s)) = Rider_objects s"
  by (simp add: mark_as_delivered_def)

text \<open>
  C9: the status view raises the rider's counters by one when an order turns DELIVERED or
  FAILED (the lemma above), but it is not the only way an order turns DELIVERED. The admin
  action \<open>mark_as_delivered\<close> writes the status and the time of delivery and never touches
  a rider: order 1 of rider 1 is marked as delivered, and the rider's \<open>total_deliveries\<close> and
  \<open>successful_deliveries\<close> are 0 as before.
\<close>

theorem mark_as_delivered_skips_counters:
  "get_order (day_store [1]) 1 = Some (mk_order 1 (Some 7) 1 540 ASSIGNED (Some 1))
   \<and> get_rider (day_store [1]) 1 = Some idle_rider
   \<and> snd (mark_as_delivered 9 (\<lambda>x. order_id x = 1) (day_store [1])) = 1
   \<and> get_order (fst (mark_as_delivered 9 (\<lambda>x. order_id x = 1) (day_store [1]))) 1
       = Some ((mk_order 1 (Some 7) 1 540 DELIVERED (Some 1))\<lparr>delivered_at := Some 9\<rparr>)
   \<and> get_rider (fst (mark_as_delivered 9 (\<lambda>x. order_id x = 1) (day_store [1]))) 1
       = Some idle_rider
   \<and> total_deliveries idle_rider = 0 \<and> successful_deliveries idle_rider = 0"
  by (simp add: mark_as_delivered_def get_order_def get_rider_def day_store_def mk_order_def
      idle_rider_def)

section \<open>Manual assignment\<close>

lemma available_riders_cong:
  "Rider_objects s' = Rider_objects s \<Longrightarrow> available_riders s' = available_riders s"
  by (simp add: available_riders_def)


text \<open>
  C10: a manual assignment that succeeds leaves the rider table as it was, so the chosen
  rider keeps status and counters and the pool of available riders is the same. The order
  row gets the rider and the status ASSIGNED, and one route with sequence 1 holding that
  order alone is added.
\<close>

theorem manual_assign_keeps_rider:
  assumes "manual_assign gw is_staff pk rider_id_arg s = Inr s'"
  shows "Rider_objects s' = Rider_objects s
       \<and> available_riders s' = available_riders s
       \<and> (\<exists>ord r l. get_order s pk = Some ord \<and> rider_id_arg = Some (rider_id r)
             \<and> get_rider s (rider_id r) = Some r \<and> landmark ord = Some l
             \<and> Order_objects s' =
                 map (\<lambda>x. if order_id x = order_id ord
                           then ord\<lparr>assigned_rider := Some (rider_id r), status := ASSIGNED\<rparr>
                           else x) (Order_objects s)
             \<and> DeliveryRoute_objects s' = DeliveryRoute_objects s @
                 [\<lparr>route_id = next_route_id s, rider = rider_id r,
                   route_date = delivery_date ord, route_landmark = l,
                   route_orders = [order_id ord], sequence = 1,
                   estimated_arrival = delivery_time_start ord, completed = False\<rparr>])"
proof -
  from assms obtain ord rid r l where o: "get_order s pk = Some ord"
    and arg: "rider_id_arg = Some rid" and r: "get_rider s rid = Some r"
    and l: "landmark ord = Some l"
    by (auto simp: manual_assign_def Let_def split: if_splits option.splits)
  have k: "rider_id r = rid" using r by (rule get_rider_key)
  have s': "s' = send_sms gw (ord\<lparr>assigned_rider := Some (rider_id r), status := ASSIGNED\<rparr>)
                   RIDER_ASSIGNMENT
                   ((save_order (ord\<lparr>assigned_rider := Some (rider_id r), status := ASSIGNED\<rparr>) s)
                      \<lparr>DeliveryRoute_objects := DeliveryRoute_objects s @
                         [\<lparr>route_id = next_route_id s, rider = rider_id r,
                           route_date = delivery_date ord, route_landmark = l,
                           route_orders = [order_id ord], sequence = 1,
                           estimated_arrival = delivery_time_start ord, completed = False\<rparr>]\<rparr>)"
    using assms o arg r l k
    by (simp add: manual_assign_def Let_def send_rider_assignment_sms_def save_order_def
        next_route_id_def split: if_splits)
  have 1: "Rider_objects s' = Rider_objects s"
    unfolding s' by (simp add: send_sms_def save_order_def)
  have 2: "Order_objects s' =
             map (\<lambda>x. if order_id x = order_id ord
                       then ord\<lparr>assigned_rider := Some (rider_id r), status := ASSIGNED\<rparr>
                       else x) (Order_objects s)"
    unfolding s' by (simp add: send_sms_def save_order_def)
  have 3: "DeliveryRoute_objects s' = DeliveryRoute_objects s @
                 [\<lparr>route_id = next_route_id s, rider = rider_id r,
                   route_date = delivery_date ord, route_landmark = l,
                   route_orders = [order_id ord], sequence = 1,
                   estimated_arrival = delivery_time_start ord, completed = False\<rparr>]"
    unfolding s' by (simp add: send_sms_def save_order_def)
  show ?thesis
    using 1 2 3 o arg r l k available_riders_cong [OF 1] by blast
qed

theorem manual_assign_keeps_rider_witness:
  "manual_assign gw_ok True 100 (Some 1) (day_store []) = Inr after_manual
   \<and> Rider_objects after_manual = Rider_objects (day_store [])
   \<and> available_riders after_manual = [idle_rider]
   \<and> rider_status idle_rider = AVAILABLE"
proof -
  have ev: "manual_assign gw_ok True 100 (Some 1) (day_store []) = Inr after_manual"
    by code_simp
  have av: "available_riders (day_store []) = [idle_rider]"
    by code_simp
  show ?thesis
    using ev av manual_assign_keeps_rider [OF ev]
    by (simp add: idle_rider_def)
qed

section \<open>Route sequence numbers\<close>

lemma next_sequence_max:
  "next_sequence s rid d =
     (if existing_routes s rid d = [] then 1
      else 1 + Max (sequence ` set (existing_routes s rid d)))"
proof (cases "existing_routes s rid d = []")
  case True
  then show ?thesis by (simp add: next_sequence_def sort_reverse_def)
next
  case False
  let ?xs = "existing_routes s rid d"
  from sort_reverse_first_max [OF False, of sequence]
  obtain as b bs where split: "?xs = as @ b # bs"
    and hd: "hd (sort_reverse sequence ?xs) = b"
    and lt: "\<forall>a\<in>set as. sequence a < sequence b"
    and le: "\<forall>c\<in>set bs. sequence c \<le> sequence b"
    by blast
  have "Max (sequence ` set ?xs) = sequence b"
  proof (rule Max_eqI)
    show "finite (sequence ` set ?xs)" by simp
    show "sequence b \<in> sequence ` set ?xs" unfolding split by simp
    fix y assume "y \<in> sequence ` set ?xs"
    then obtain x where x: "x \<in> set ?xs" "y = sequence x" by blast
    then have "x \<in> set as \<or> x = b \<or> x \<in> set bs" unfolding split by auto
    then show "y \<le> sequence b" using lt le x(2) by (auto simp: less_imp_le)
  qed
  moreover have "sort_reverse sequence ?xs \<noteq> []"
    using False by (simp add: sort_reverse_Nil_iff)
  ultimately show ?thesis
    using False hd by (cases "sort_reverse sequence ?xs") (simp_all add: next_sequence_def)
qed

lemma next_sequence_after_prefix:
  assumes "map sequence (existing_routes s rid d) = [1..int m]"
  shows "next_sequence s rid d = int m + 1"
proof (cases m)
  case 0
  then have "existing_routes s rid d = []" using assms by simp
  then show ?thesis using 0 by (simp add: next_sequence_max)
next
  case (Suc k)
  have img: "sequence ` set (existing_routes s rid d) = {1..int m}"
    using assms by (metis set_map set_upto)
  have "existing_routes s rid d \<noteq> []" using assms Suc by auto
  moreover have "Max {1..int m} = int m" using Suc by (intro Max_eqI) auto
  ultimately show ?thesis by (simp add: next_sequence_max img)
qed

lemma create_delivery_route_ok:
  assumes "ords \<noteq> []" and "lm = Some l"
  shows "\<exists>s' route. create_delivery_route r lm d ords s = Inr (s', route)
           \<and> DeliveryRoute_objects s' = DeliveryRoute_objects s @ [route]
           \<and> sequence route = next_sequence s (rider_id r) d
           \<and> rider route = rider_id r \<and> route_date route = d"
  using assms by (cases ords) (simp_all add: create_delivery_route_def Let_def)

lemma create_delivery_route_sequence:
  "create_delivery_route r lm d ords s = Inr (s', route) \<Longrightarrow>
     sequence route = next_sequence s (rider_id r) d"
  by (auto simp: create_delivery_route_def Let_def split: list.splits option.splits)

lemma create_routes_prefix:
  assumes "map sequence (existing_routes s rid d) = [1..int m]"
    and "\<forall>c\<in>set cs. fst (snd c) \<noteq> None \<and> snd (snd (snd c)) \<noteq> []"
  shows "\<exists>s'. create_routes cs s = Inr s'
           \<and> map sequence (existing_routes s' rid d)
               = [1..int (m + length (filter (\<lambda>c. rider_id (fst c) = rid \<and> fst (snd (snd c)) = d) cs))]"
  using assms
proof (induction cs arbitrary: s m)
  case Nil
  then show ?case by simp
next
  case (Cons c cs)
  obtain r lm d' ords where c: "c = (r, lm, d', ords)" by (cases c) auto
  from Cons.prems(2) c obtain l where l: "lm = Some l" and ne: "ords \<noteq> []" by auto
  from create_delivery_route_ok [OF ne l, of r d' s]
  obtain s1 route where cr: "create_delivery_route r lm d' ords s = Inr (s1, route)"
    and tab: "DeliveryRoute_objects s1 = DeliveryRoute_objects s @ [route]"
    and sq: "sequence route = next_sequence s (rider_id r) d'"
    and rr: "rider route = rider_id r" and rd: "route_date route = d'"
    by blast
  have rest: "\<forall>c\<in>set cs. fst (snd c) \<noteq> None \<and> snd (snd (snd c)) \<noteq> []"
    using Cons.prems(2) by simp
  show ?case
  proof (cases "rider_id r = rid \<and> d' = d")
    case True
    have "sequence route = int m + 1"
      using sq True next_sequence_after_prefix [OF Cons.prems(1)] by simp
    then have "map sequence (existing_routes s1 rid d) = [1..int (Suc m)]"
      using Cons.prems(1) True rr rd tab
      by (simp add: existing_routes_def upto_rec2)
    from Cons.IH [OF this rest] show ?thesis
      using cr c True by simp
  next
    case False
    have "map sequence (existing_routes s1 rid d) = [1..int m]"
      using Cons.prems(1) False rr rd tab
      by (auto simp: existing_routes_def)
    from Cons.IH [OF this rest] show ?thesis
      using cr c False by auto
  qed
qed

text \<open>
  C6: a route created by \<open>_create_delivery_route\<close> gets sequence 1 when the rider has no
  route on that date, and one more than the greatest sequence of the rider's routes on that
  date otherwise. Starting from a store with no route for a rider and date, any run of
  route creations (each with a landmark and at least one order, for any riders and dates)
  succeeds, and the routes of that rider and date then carry, in creation order, the
  sequence numbers 1 to N, where N is the number of creations for that rider and date.
\<close>

theorem route_sequence_gapless:
  assumes "existing_routes s rid d = []"
    and "\<forall>c\<in>set cs. fst (snd c) \<noteq> None \<and> snd (snd (snd c)) \<noteq> []"
  shows "(\<forall>t r lm ords t' route.
            create_delivery_route r lm d ords t = Inr (t', route) \<longrightarrow>
              sequence route =
                (if existing_routes t (rider_id r) d = [] then 1
                 else 1 + Max (sequence ` set (existing_routes t (rider_id r) d))))
       \<and> (\<exists>s'. create_routes cs s = Inr s'
             \<and> map sequence (existing_routes s' rid d)
                 = [1..int (length (filter (\<lambda>c. rider_id (fst c) = rid \<and> fst (snd (snd c)) = d) cs))])"
proof -
  have a: "map sequence (existing_routes s rid d) = [1..int 0]"
    using assms(1) by simp
  have 1: "sequence route =
             (if existing_routes t (rider_id r) d = [] then 1
              else 1 + Max (sequence ` set (existing_routes t (rider_id r) d)))"
    if "create_delivery_route r lm d ords t = Inr (t', route)" for t r lm ords t' route
    using create_delivery_route_sequence [OF that] next_sequence_max [of t "rider_id r" d]
    by simp
  have 2: "\<exists>s'. create_routes cs s = Inr s'
             \<and> map sequence (existing_routes s' rid d)
                 = [1..int (length (filter (\<lambda>c. rider_id (fst c) = rid \<and> fst (snd (snd c)) = d) cs))]"
    using create_routes_prefix [OF a assms(2)] by simp
  show ?thesis using 1 2 by blast
qed

theorem route_sequence_gapless_witness:
  "existing_routes (day_store []) 1 1 = []
   \<and> (\<exists>s'. create_routes four_creations (day_store []) = Inr s'
         \<and> map sequence (existing_routes s' 1 1) = [1, 2, 3])"
proof -
  have e: "existing_routes (day_store []) 1 1 = []"
    by (simp add: existing_routes_def day_store_def)
  have wf: "\<forall>c\<in>set four_creations. fst (snd c) \<noteq> None \<and> snd (snd (snd c)) \<noteq> []"
    by (simp add: four_creations_def)
  have n: "length (filter (\<lambda>c. rider_id (fst c) = 1 \<and> fst (snd (snd c)) = 1) four_creations) = 3"
    by (simp add: four_creations_def idle_rider_def)
  have u: "[1..int 3] = [1, 2, 3]" by code_simp
  show ?thesis
    using e route_sequence_gapless [OF e wf] unfolding n u by blast
qed

section \<open>Availability across the cohorts of one call\<close>

lemma set_available_riders:
  "set (available_riders s) = {r \<in> set (Rider_objects s). rider_status r = AVAILABLE}"
  by (auto simp: available_riders_def)

lemma Rider_objects_save_order [simp]: "Rider_objects (save_order ord s) = Rider_objects s"
  by (simp add: save_order_def)

lemma Rider_objects_assign_each [simp]: "Rider_objects (assign_each r ords s) = Rider_objects s"
  by (induction ords arbitrary: s) simp_all

lemma Rider_objects_send_sms [simp]: "Rider_objects (send_sms gw ord mt s) = Rider_objects s"
  by (simp add: send_sms_def Let_def)

lemma Rider_objects_create_delivery_route:
  "create_delivery_route r lm d ords s = Inr (s', route) \<Longrightarrow> Rider_objects s' = Rider_objects s"
  by (auto simp: create_delivery_route_def Let_def split: list.splits option.splits)

lemma Rider_objects_send_rider_assignment_sms:
  "send_rider_assignment_sms gw r ords s = Inr s' \<Longrightarrow> Rider_objects s' = Rider_objects s"
  by (auto simp: send_rider_assignment_sms_def split: list.splits option.splits)

lemma find_best_rider_mem:
  assumes "find_best_rider s riders lm ords = Inr (Some best)"
  shows "best \<in> set riders"
proof (cases "riders = []")
  case True
  then show ?thesis using assms by (simp add: find_best_rider_def)
next
  case False
  show ?thesis
  proof (cases ords)
    case Nil
    then show ?thesis using assms False by (simp add: find_best_rider_def)
  next
    case (Cons ord rest)
    from find_best_rider_split [OF False, of s lm ord rest] assms Cons
    show ?thesis by auto
  qed
qed

lemma available_after_flip:
  "rider_id ` set (available_riders (save_rider (best\<lparr>rider_status := ON_DELIVERY\<rparr>) s))
     = rider_id ` set (available_riders s) - {rider_id best}"
  by (auto simp: set_available_riders save_rider_def image_iff)

lemma assign_group_failure_untouched:
  "assign_group_to_rider gw lm d ords s = Inr (s', Group_failure l why n) \<Longrightarrow> s' = s"
  by (auto simp: assign_group_to_rider_def Let_def
           split: if_splits sum.splits option.splits prod.splits)

lemma assign_group_success_flips:
  assumes "assign_group_to_rider gw lm d ords s = Inr (s', Group_success l rid n rt)"
  shows "rid \<in> rider_id ` set (available_riders s)
       \<and> rider_id ` set (available_riders s') = rider_id ` set (available_riders s) - {rid}"
proof -
  from assms obtain best s2 route s3 where
    best: "find_best_rider s (available_riders s) lm ords = Inr (Some best)"
    and cr: "create_delivery_route best lm d ords (assign_each best ords s) = Inr (s2, route)"
    and sms: "send_rider_assignment_sms gw best
                (map (\<lambda>x. x\<lparr>assigned_rider := Some (rider_id best), status := ASSIGNED\<rparr>) ords) s2
              = Inr s3"
    and s': "s' = save_rider (best\<lparr>rider_status := ON_DELIVERY\<rparr>) s3"
    and rid: "rid = rider_id best"
    by (auto simp: assign_group_to_rider_def Let_def
             split: if_splits sum.splits option.splits prod.splits)
  have r3: "Rider_objects s3 = Rider_objects s"
    using Rider_objects_send_rider_assignment_sms [OF sms]
      Rider_objects_create_delivery_route [OF cr] by simp
  then have av: "set (available_riders s3) = set (available_riders s)"
    by (simp add: set_available_riders)
  have mem: "best \<in> set (available_riders s)"
    using best by (rule find_best_rider_mem)
  show ?thesis
    using mem av unfolding s' rid available_after_flip by simp
qed

lemma assign_groups_selected:
  assumes "assign_groups gw g s n acc = Inr (s', n', res)"
  shows "\<exists>new. res = acc @ new
           \<and> distinct (concat (map selected new))
           \<and> set (concat (map selected new)) \<subseteq> rider_id ` set (available_riders s)
           \<and> rider_id ` set (available_riders s')
               = rider_id ` set (available_riders s) - set (concat (map selected new))"
  using assms
proof (induction g arbitrary: s n acc)
  case Nil
  then show ?case by simp
next
  case (Cons c g)
  obtain lm d ords where c: "c = ((lm, d), ords)" by (cases c) auto
  have unf: "assign_groups gw (((lm, d), ords) # g) s n acc = Inr (s', n', res)"
    using Cons.prems unfolding c .
  obtain s1 r1 where step: "assign_group_to_rider gw lm d ords s = Inr (s1, r1)"
    using unf by (cases "assign_group_to_rider gw lm d ords s") auto
  have rest: "assign_groups gw g s1
                 (if success r1 then n + length ords else n) (acc @ [r1]) = Inr (s', n', res)"
    using unf step by simp
  from Cons.IH [OF rest] obtain new where
    res: "res = (acc @ [r1]) @ new"
    and dist: "distinct (concat (map selected new))"
    and sub: "set (concat (map selected new)) \<subseteq> rider_id ` set (available_riders s1)"
    and av: "rider_id ` set (available_riders s')
               = rider_id ` set (available_riders s1) - set (concat (map selected new))"
    by blast
  have res': "res = acc @ (r1 # new)" using res by simp
  show ?case
  proof (cases r1)
    case (Group_failure l why k)
    have s1: "s1 = s"
      using step unfolding Group_failure by (rule assign_group_failure_untouched)
    have sel: "concat (map selected (r1 # new)) = concat (map selected new)"
      unfolding Group_failure by simp
    show ?thesis
      using res' dist sub av unfolding s1 sel [symmetric] by blast
  next
    case (Group_success l rid k rt)
    from assign_group_success_flips [OF step [unfolded Group_success]]
    have mem: "rid \<in> rider_id ` set (available_riders s)"
      and av1: "rider_id ` set (available_riders s1) = rider_id ` set (available_riders s) - {rid}"
      by blast+
    have sel: "concat (map selected (r1 # new)) = rid # concat (map selected new)"
      unfolding Group_success by simp
    have a: "rid \<notin> set (concat (map selected new))" using sub av1 by blast
    have b: "set (concat (map selected new)) \<subseteq> rider_id ` set (available_riders s)"
      using sub av1 by blast
    have c': "rider_id ` set (available_riders s')
        = rider_id ` set (available_riders s) - set (rid # concat (map selected new))"
      using av av1 by auto
    have d': "distinct (rid # concat (map selected new))" using a dist by simp
    have e': "set (rid # concat (map selected new)) \<subseteq> rider_id ` set (available_riders s)"
      using b mem by simp
    show ?thesis
      using res' c' d' e' unfolding sel [symmetric] by blast
  qed
qed

text \<open>
  C3: the available riders are queried anew for each cohort, after the rider of the cohort
  before was saved as ON_DELIVERY. So in the report of one call the riders of the assigned
  cohorts are pairwise distinct; each of them was available before the call and is not
  available after it; and the rider a cohort is assigned to is in the pool before that
  cohort and out of the pool the next cohort sees.
\<close>

theorem no_rider_selected_twice:
  assumes "assign_orders_to_riders gw q s = Inr (s', Assigned n total_orders results)"
  shows "distinct (concat (map selected results))
       \<and> (\<forall>rid\<in>set (concat (map selected results)).
             rid \<in> rider_id ` set (available_riders s)
             \<and> rid \<notin> rider_id ` set (available_riders s'))
       \<and> (\<forall>lm d ords t t' l rid k rt.
             assign_group_to_rider gw lm d ords t = Inr (t', Group_success l rid k rt) \<longrightarrow>
               rid \<in> rider_id ` set (available_riders t)
               \<and> rid \<notin> rider_id ` set (available_riders t'))"
proof -
  from assms obtain g where
    loop: "assign_groups gw g s 0 [] = Inr (s', n, results)"
    by (auto simp: assign_orders_to_riders_def Let_def
             split: if_splits sum.splits prod.splits)
  from assign_groups_selected [OF loop]
  have 1: "distinct (concat (map selected results))"
    and 2: "set (concat (map selected results)) \<subseteq> rider_id ` set (available_riders s)"
    and 3: "rider_id ` set (available_riders s')
              = rider_id ` set (available_riders s) - set (concat (map selected results))"
    by auto
  have 4: "rid \<in> rider_id ` set (available_riders t)
             \<and> rid \<notin> rider_id ` set (available_riders t')"
    if "assign_group_to_rider gw lm d ords t = Inr (t', Group_success l rid k rt)"
    for lm d ords t t' l rid k rt
    using assign_group_success_flips [OF that] by blast
  show ?thesis
    using 1 2 3 4 by blast
qed

theorem no_rider_selected_twice_witness:
  "assign_orders_to_riders gw_ok None two_cohort_store
     = Inr (after_two_cohorts, Assigned 2 2 [Group_success 7 1 1 1, Group_success 8 2 1 2])
   \<and> distinct (concat (map selected [Group_success 7 1 1 1, Group_success 8 2 1 2]))
   \<and> available_riders after_two_cohorts = []"
proof -
  have ev: "assign_orders_to_riders gw_ok None two_cohort_store
     = Inr (after_two_cohorts, Assigned 2 2 [Group_success 7 1 1 1, Group_success 8 2 1 2])"
    by code_simp
  have av: "available_riders after_two_cohorts = []"
    by code_simp
  show ?thesis
    using ev av no_rider_selected_twice [OF ev] by blast
qed

section \<open>Cohorts that cannot be assigned\<close>

lemma failed_cohort_recorded:
  "available_riders s = [] \<Longrightarrow>
     assign_group_to_rider gw (Some l) d ords s
       = Inr (s, Group_failure l No_available_riders (length ords))"
  by (simp add: assign_group_to_rider_def)

lemma no_riders_all_cohorts_fail:
  assumes "available_riders s = []" and "\<forall>c\<in>set g. fst (fst c) \<noteq> None"
  shows "assign_groups gw g s n acc
           = Inr (s, n, acc @ map (\<lambda>c. Group_failure (the (fst (fst c))) No_available_riders
                                      (length (snd c))) g)"
  using assms(2)
proof (induction g arbitrary: n acc)
  case Nil
  then show ?case by simp
next
  case (Cons c g)
  obtain lm d ords where c: "c = ((lm, d), ords)" by (cases c) auto
  from Cons.prems c obtain l where l: "lm = Some l" by auto
  have rest: "\<forall>c\<in>set g. fst (fst c) \<noteq> None" using Cons.prems by simp
  show ?case
    unfolding c l using Cons.IH [OF rest] failed_cohort_recorded [OF assms(1)]
    by simp
qed

text \<open>
  C4: a cohort that cannot be assigned is meant to leave its orders as they are, add a
  failure entry and let the call go on. With a landmark that is what happens (the two
  lemmas above). The failure entry reads \<open>landmark.name\<close>, though, and the landmark of an
  order may be null: for the store with one confirmed order without landmark and no
  available rider, the cohort raises AttributeError and so does the whole call, for every
  gateway. No entry is recorded and no report is returned.
\<close>

theorem orphan_cohort_raises:
  "available_riders orphan_store = []
   \<and> filter default_queryset (Order_objects orphan_store) = [mk_order 100 None 1 600 CONFIRMED None]
   \<and> assign_group_to_rider gw None 1 [mk_order 100 None 1 600 CONFIRMED None] orphan_store
        = Inl AttributeError
   \<and> assign_orders_to_riders gw None orphan_store = Inl AttributeError"
  by (simp add: assign_orders_to_riders_def assign_group_to_rider_def available_riders_def
      group_orders_by_landmark_and_date_def default_queryset_def orphan_store_def mk_order_def)

section \<open>Route optimizer\<close>

lemma renumber_frame:
  "renumber k srt s = s\<lparr>DeliveryRoute_objects := DeliveryRoute_objects (renumber k srt s)\<rparr>"
proof (induction srt arbitrary: k s)
  case Nil
  show ?case by simp
next
  case (Cons r srt)
  let ?s1 = "save_route (r\<lparr>sequence := k\<rparr>) s"
  have "renumber (k + 1) srt ?s1
          = ?s1\<lparr>DeliveryRoute_objects := DeliveryRoute_objects (renumber (k + 1) srt ?s1)\<rparr>"
    by (rule Cons.IH)
  then show ?case by (simp add: save_route_def)
qed

lemma assigned_index_None:
  "k \<notin> route_id ` set srt \<Longrightarrow> assigned_index idx srt k = None"
  by (induction srt arbitrary: idx) auto

lemma assigned_index_ids:
  "map route_id srt' = map route_id srt \<Longrightarrow> assigned_index idx srt' k = assigned_index idx srt k"
proof (induction srt arbitrary: idx srt')
  case Nil
  then show ?case by simp
next
  case (Cons r srt)
  then obtain r' rest where s: "srt' = r' # rest" by (cases srt') auto
  with Cons.prems have "route_id r' = route_id r" "map route_id rest = map route_id srt" by simp_all
  then show ?case using Cons.IH [of rest] s by simp
qed

text \<open>What the loop does to one row of the table.\<close>

lemma renumber_table:
  assumes "distinct (map route_id (DeliveryRoute_objects s))"
    and "distinct (map route_id srt)"
    and "set srt \<subseteq> set (DeliveryRoute_objects s)"
  shows "DeliveryRoute_objects (renumber idx srt s)
           = map (\<lambda>x. case assigned_index idx srt (route_id x) of
                         None \<Rightarrow> x | Some i \<Rightarrow> x\<lparr>sequence := i\<rparr>)
               (DeliveryRoute_objects s)"
  using assms
proof (induction srt arbitrary: idx s)
  case Nil
  show ?case by simp
next
  case (Cons r srt)
  let ?rs = "DeliveryRoute_objects s"
  let ?s1 = "save_route (r\<lparr>sequence := idx\<rparr>) s"
  have rin: "r \<in> set ?rs" using Cons.prems(3) by simp
  have uniq: "x = r" if "x \<in> set ?rs" "route_id x = route_id r" for x
    using that rin Cons.prems(1) by (meson distinct_map inj_onD)
  have t1: "DeliveryRoute_objects ?s1
              = map (\<lambda>x. if route_id x = route_id r then x\<lparr>sequence := idx\<rparr> else x) ?rs"
    unfolding save_route_def using uniq by (auto intro!: map_cong)
  have ids1: "map route_id (DeliveryRoute_objects ?s1) = map route_id ?rs"
    unfolding t1 by (simp add: comp_def if_distrib cong: if_cong)
  have d1: "distinct (map route_id (DeliveryRoute_objects ?s1))"
    unfolding ids1 by (rule Cons.prems(1))
  have d2: "distinct (map route_id srt)" using Cons.prems(2) by simp
  have notr: "route_id r \<notin> route_id ` set srt" using Cons.prems(2) by simp
  have sub1: "set srt \<subseteq> set (DeliveryRoute_objects ?s1)"
  proof
    fix y assume y: "y \<in> set srt"
    then have "route_id y \<noteq> route_id r" using notr by (metis imageI)
    moreover have "y \<in> set ?rs" using y Cons.prems(3) by auto
    ultimately show "y \<in> set (DeliveryRoute_objects ?s1)"
      unfolding t1 by (auto simp: image_iff intro!: bexI [of _ y])
  qed
  have "DeliveryRoute_objects (renumber idx (r # srt) s)
          = DeliveryRoute_objects (renumber (idx + 1) srt ?s1)"
    by simp
  also have "\<dots> = map (\<lambda>x. case assigned_index (idx + 1) srt (route_id x) of
                           None \<Rightarrow> x | Some i \<Rightarrow> x\<lparr>sequence := i\<rparr>)
                      (DeliveryRoute_objects ?s1)"
    by (rule Cons.IH [OF d1 d2 sub1])
  also have "\<dots> = map (\<lambda>x. case assigned_index idx (r # srt) (route_id x) of
                           None \<Rightarrow> x | Some i \<Rightarrow> x\<lparr>sequence := i\<rparr>) ?rs"
    unfolding t1 map_map
    by (rule map_cong) (auto simp: assigned_index_None [OF notr])
  finally show ?case .
qed

lemma assigned_index_enumerate:
  "distinct (map route_id srt) \<Longrightarrow>
     map (\<lambda>x. assigned_index idx srt (route_id x)) srt
       = map Some [idx..idx + int (length srt) - 1]"
proof (induction srt arbitrary: idx)
  case Nil
  show ?case by simp
next
  case (Cons r srt)
  have "route_id r \<notin> route_id ` set srt" using Cons.prems by simp
  then have notr: "\<forall>x\<in>set srt. route_id x \<noteq> route_id r" by (metis imageI)
  have "map (\<lambda>x. assigned_index idx (r # srt) (route_id x)) srt
          = map (\<lambda>x. assigned_index (idx + 1) srt (route_id x)) srt"
    using notr by (intro map_cong) auto
  also have "\<dots> = map Some [idx + 1..idx + 1 + int (length srt) - 1]"
    using Cons.prems by (intro Cons.IH) simp
  finally have tl: "map (\<lambda>x. assigned_index idx (r # srt) (route_id x)) srt
          = map Some [idx + 1..idx + int (length srt)]"
    by (simp add: add.commute add.left_commute)
  have "[idx..idx + int (length (r # srt)) - 1] = idx # [idx + 1..idx + int (length srt)]"
    by (simp add: upto_rec1)
  then show ?case using tl by simp
qed

lemma filter_map_invariant:
  "(\<And>x. P (h x) = P x) \<Longrightarrow> filter P (map h xs) = map h (filter P xs)"
  by (induction xs) simp_all


lemma sorted_answers_agree:
  assumes "mset xs = mset ys" and "sorted (map f xs)" and "sorted (map f ys)"
    and "distinct (map f ys)"
  shows "xs = ys"
proof -
  have "mset (map f xs) = mset (map f ys)" using assms(1) by simp
  then have dx: "distinct (map f xs)" using assms(4) by (metis mset_eq_imp_distinct_iff)
  have st: "set xs = set ys" using assms(1) by (rule mset_eq_setD)
  have "inj_on f (set ys)" using assms(4) by (simp add: distinct_map)
  then have "inj_on f (set xs \<union> set ys)" using st by simp
  then show ?thesis
    using assms(2) dx assms(3) assms(4) st by (rule map_sorted_distinct_set_unique)
qed

text \<open>
  C7, amended: in a table with distinct route keys, for every list the query may return,
  the optimizer leaves the length of the table and every completed route as they were, and
  gives the rider's incomplete routes of the date the sequence numbers 1 to N in the order
  of that list, which is ascending in estimated arrival. A second run changes nothing when
  its query returns the routes in the same order as the first; that is so for every list it
  may return when the arrival times are pairwise different. Among routes with equal arrival
  the order is the one the database returns, whatever their order was before.
\<close>

theorem optimize_rider_route_renumbers:
  assumes "distinct (map route_id (DeliveryRoute_objects s))"
    and "routes_query s rid d routes"
    and "s' = optimize_rider_route routes s"
  shows "length (DeliveryRoute_objects s') = length (DeliveryRoute_objects s)
       \<and> (\<forall>i<length (DeliveryRoute_objects s). completed (DeliveryRoute_objects s ! i) \<longrightarrow>
             DeliveryRoute_objects s' ! i = DeliveryRoute_objects s ! i)
       \<and> (\<exists>routes'. routes_query s' rid d routes'
             \<and> map route_id routes' = map route_id routes
             \<and> map sequence routes' = [1..int (length routes)])
       \<and> (\<forall>routes2. routes_query s' rid d routes2
                      \<and> map route_id routes2 = map route_id routes \<longrightarrow>
             optimize_rider_route routes2 s' = s')
       \<and> (distinct (map estimated_arrival routes) \<longrightarrow>
            (\<forall>routes2. routes_query s' rid d routes2 \<longrightarrow> optimize_rider_route routes2 s' = s'))"
proof -
  define P where "P = is_incomplete rid d"
  define rs where "rs = DeliveryRoute_objects s"
  define h where "h = (\<lambda>x :: DeliveryRoute. case assigned_index 1 routes (route_id x) of
                              None \<Rightarrow> x | Some i \<Rightarrow> x\<lparr>sequence := i\<rparr>)"
  have ms: "mset routes = mset (filter P rs)" and srt: "sorted (map estimated_arrival routes)"
    using assms(2) by (simp_all add: routes_query_def P_def rs_def)
  have drs: "distinct (map route_id rs)" using assms(1) by (simp add: rs_def)
  have st: "set routes = set (filter P rs)" using ms by (rule mset_eq_setD)
  have sub: "set routes \<subseteq> set rs" using st by auto
  have droutes: "distinct (map route_id routes)"
  proof -
    have "distinct (map route_id (filter P rs))" using drs by (rule distinct_map_filter)
    moreover have "mset (map route_id routes) = mset (map route_id (filter P rs))"
      using ms by simp
    ultimately show ?thesis by (metis mset_eq_imp_distinct_iff)
  qed
  have hP: "P (h x) = P x" for x
    by (simp add: h_def P_def is_incomplete_def split: option.split)
  have heta: "estimated_arrival (h x) = estimated_arrival x" for x
    by (simp add: h_def split: option.split)
  have hid: "route_id (h x) = route_id x" for x
    by (simp add: h_def split: option.split)
  have hh: "h (h x) = h x" for x
    by (cases "assigned_index 1 routes (route_id x)") (simp_all add: h_def)
  have tab: "DeliveryRoute_objects s' = map h rs"
    unfolding assms(3) optimize_rider_route_def h_def rs_def
    using assms(1) droutes sub [unfolded rs_def] by (rule renumber_table)
  have opt: "s' = s\<lparr>DeliveryRoute_objects := map h rs\<rparr>"
    using renumber_frame [of 1 routes s] tab
    by (simp add: assms(3) optimize_rider_route_def)
  have d1: "distinct (map route_id (DeliveryRoute_objects s'))"
    unfolding tab using drs by (simp add: hid comp_def)
  have q': "routes_query s' rid d (map h routes)"
  proof -
    have "mset (map h routes) = mset (map h (filter P rs))" using ms by simp
    also have "\<dots> = mset (filter P (map h rs))"
      using hP by (simp add: filter_map_invariant)
    finally have "mset (map h routes) = mset (filter P (DeliveryRoute_objects s'))"
      by (simp add: tab)
    moreover have "sorted (map estimated_arrival (map h routes))"
      using srt by (simp add: heta comp_def)
    ultimately show ?thesis by (simp add: routes_query_def P_def)
  qed
  have ids: "map route_id (map h routes) = map route_id routes"
    by (simp add: hid)
  have enum: "map (\<lambda>x. assigned_index 1 routes (route_id x)) routes
                = map Some [1..int (length routes)]"
    using assigned_index_enumerate [OF droutes, of 1] by simp
  have seqs: "map sequence (map h routes) = [1..int (length routes)]"
  proof -
    have some: "\<exists>i. assigned_index 1 routes (route_id x) = Some i" if "x \<in> set routes" for x
    proof -
      have "assigned_index 1 routes (route_id x)
              \<in> set (map (\<lambda>x. assigned_index 1 routes (route_id x)) routes)"
        using that by simp
      then show ?thesis unfolding enum by auto
    qed
    have "map sequence (map h routes)
            = map (\<lambda>x. the (assigned_index 1 routes (route_id x))) routes"
      unfolding map_map
    proof (rule map_cong [OF refl])
      fix x assume "x \<in> set routes"
      from some [OF this] show "(sequence \<circ> h) x = the (assigned_index 1 routes (route_id x))"
        by (auto simp: h_def)
    qed
    also have "\<dots> = map the (map (\<lambda>x. assigned_index 1 routes (route_id x)) routes)"
      by (simp add: comp_def)
    also have "\<dots> = [1..int (length routes)]"
      unfolding enum by (simp add: comp_def)
    finally show ?thesis .
  qed
  have idem: "optimize_rider_route routes2 s' = s'"
    if q2: "routes_query s' rid d routes2" and i2: "map route_id routes2 = map route_id routes"
    for routes2
  proof -
    have m2: "mset routes2 = mset (filter P (DeliveryRoute_objects s'))"
      using q2 by (simp add: routes_query_def P_def)
    have "set routes2 = set (filter P (DeliveryRoute_objects s'))"
      using m2 by (rule mset_eq_setD)
    then have s2: "set routes2 \<subseteq> set (DeliveryRoute_objects s')" by auto
    have d2: "distinct (map route_id routes2)" unfolding i2 by (rule droutes)
    have ai: "assigned_index 1 routes2 k = assigned_index 1 routes k" for k
      by (rule assigned_index_ids [OF i2])
    have fn: "(\<lambda>x. case assigned_index 1 routes2 (route_id x) of
                      None \<Rightarrow> x | Some i \<Rightarrow> x\<lparr>sequence := i\<rparr>) = h"
      unfolding ai by (simp add: h_def)
    have "DeliveryRoute_objects (renumber 1 routes2 s')
            = map (\<lambda>x. case assigned_index 1 routes2 (route_id x) of
                          None \<Rightarrow> x | Some i \<Rightarrow> x\<lparr>sequence := i\<rparr>)
                (DeliveryRoute_objects s')"
      using d1 d2 s2 by (rule renumber_table)
    also have "\<dots> = map h (map h rs)" unfolding fn tab ..
    also have "\<dots> = map h rs" by (simp add: hh)
    finally have t2: "DeliveryRoute_objects (renumber 1 routes2 s') = map h rs" .
    have "optimize_rider_route routes2 s' = s'\<lparr>DeliveryRoute_objects := map h rs\<rparr>"
      using renumber_frame [of 1 routes2 s'] t2 by (simp add: optimize_rider_route_def)
    also have "\<dots> = s'" unfolding opt by simp
    finally show ?thesis .
  qed
  have idem_distinct: "optimize_rider_route routes2 s' = s'"
    if de: "distinct (map estimated_arrival routes)" and q2: "routes_query s' rid d routes2"
    for routes2
  proof -
    have m2: "mset routes2 = mset (map h routes)"
      using q2 q' by (simp add: routes_query_def)
    have s2: "sorted (map estimated_arrival routes2)"
      using q2 by (simp add: routes_query_def)
    have s1: "sorted (map estimated_arrival (map h routes))"
      using q' by (simp add: routes_query_def)
    have dd: "distinct (map estimated_arrival (map h routes))"
      using de by (simp add: heta comp_def)
    have "routes2 = map h routes"
      using m2 s2 s1 dd by (rule sorted_answers_agree)
    then have "map route_id routes2 = map route_id routes" using ids by simp
    with q2 show ?thesis by (rule idem)
  qed
  have len: "length (DeliveryRoute_objects s') = length (DeliveryRoute_objects s)"
    by (simp add: tab rs_def)
  have keep: "DeliveryRoute_objects s' ! i = DeliveryRoute_objects s ! i"
    if i: "i < length (DeliveryRoute_objects s)" and c: "completed (DeliveryRoute_objects s ! i)"
    for i
  proof -
    have i': "i < length rs" using i by (simp add: rs_def)
    have c': "completed (rs ! i)" using c by (simp add: rs_def)
    have "route_id (rs ! i) \<notin> route_id ` set routes"
    proof
      assume "route_id (rs ! i) \<in> route_id ` set routes"
      then obtain y where y: "y \<in> set routes" "route_id y = route_id (rs ! i)" by auto
      then have "y \<in> set rs" "P y" using st by auto
      moreover have "rs ! i \<in> set rs" using i' by simp
      ultimately have "y = rs ! i" using y(2) drs by (meson distinct_map inj_onD)
      with \<open>P y\<close> c' show False by (simp add: P_def is_incomplete_def)
    qed
    then have "h (rs ! i) = rs ! i" by (simp add: h_def assigned_index_None)
    then show ?thesis using i' by (simp add: tab rs_def)
  qed
  show ?thesis
    using len keep q' ids seqs idem idem_distinct by blast
qed


theorem optimize_rider_route_renumbers_witness:
  "distinct (map route_id (DeliveryRoute_objects route_store))
   \<and> routes_query route_store 1 1
         [mk_route 4 4 540 False, mk_route 2 3 600 False, mk_route 3 2 600 False]
   \<and> optimize_rider_route
         [mk_route 4 4 540 False, mk_route 2 3 600 False, mk_route 3 2 600 False] route_store
       = route_store_23
   \<and> optimize_rider_route
         [mk_route 4 1 540 False, mk_route 2 2 600 False, mk_route 3 3 600 False] route_store_23
       = route_store_23
   \<and> distinct (map route_id (DeliveryRoute_objects plain_route_store))
   \<and> routes_query plain_route_store 1 1 [mk_route 4 4 540 False, mk_route 2 3 600 False]
   \<and> optimize_rider_route [mk_route 4 4 540 False, mk_route 2 3 600 False] plain_route_store
       = plain_route_store_done
   \<and> optimize_rider_route [mk_route 4 1 540 False, mk_route 2 2 600 False] plain_route_store_done
       = plain_route_store_done"
proof -
  let ?A = "[mk_route 4 4 540 False, mk_route 2 3 600 False, mk_route 3 2 600 False]"
  let ?A' = "[mk_route 4 1 540 False, mk_route 2 2 600 False, mk_route 3 3 600 False]"
  let ?B = "[mk_route 4 4 540 False, mk_route 2 3 600 False]"
  let ?B' = "[mk_route 4 1 540 False, mk_route 2 2 600 False]"
  have d: "distinct (map route_id (DeliveryRoute_objects route_store))"
    by (simp add: route_store_def mk_route_def)
  have q: "routes_query route_store 1 1 ?A"
    by (simp add: routes_query_def is_incomplete_def route_store_def mk_route_def)
  have ev: "route_store_23 = optimize_rider_route ?A route_store"
    by (simp add: optimize_rider_route_def save_route_def route_store_23_def route_store_def
        mk_route_def)
  have q2: "routes_query route_store_23 1 1 ?A'"
    by (simp add: routes_query_def is_incomplete_def route_store_23_def route_store_def
        mk_route_def)
  have i2: "map route_id ?A' = map route_id ?A" by (simp add: mk_route_def)
  have 1: "optimize_rider_route ?A' route_store_23 = route_store_23"
    using optimize_rider_route_renumbers [OF d q ev] q2 i2 by blast
  have d': "distinct (map route_id (DeliveryRoute_objects plain_route_store))"
    by (simp add: plain_route_store_def route_store_def mk_route_def)
  have p: "routes_query plain_route_store 1 1 ?B"
    by (simp add: routes_query_def is_incomplete_def plain_route_store_def route_store_def
        mk_route_def)
  have ev': "plain_route_store_done = optimize_rider_route ?B plain_route_store"
    by (simp add: optimize_rider_route_def save_route_def plain_route_store_done_def
        plain_route_store_def route_store_def mk_route_def)
  have p2: "routes_query plain_route_store_done 1 1 ?B'"
    by (simp add: routes_query_def is_incomplete_def plain_route_store_done_def route_store_def
        mk_route_def)
  have de: "distinct (map estimated_arrival ?B)" by (simp add: mk_route_def)
  have 2: "optimize_rider_route ?B' plain_route_store_done = plain_route_store_done"
    using optimize_rider_route_renumbers [OF d' p ev'] p2 de by blast
  show ?thesis
    using d q ev [symmetric] 1 d' p ev' [symmetric] 2 by blast
qed

text \<open>
  C7, as stated, fails. Routes 2 and 3 arrive at the same time; route 2 comes first in the
  table and route 3 first in sequence. The query may return them either way. Returned in
  table order, route 2 gets sequence 2 and route 3 sequence 3, against their order of
  sequence before the run; returned the other way, they are numbered against their table
  order. And when a second run gets them the other way than the first, it renumbers them:
  the second run is not the identity.
\<close>

theorem tied_routes_reordered:
  "routes_query route_store 1 1
     [mk_route 4 4 540 False, mk_route 2 3 600 False, mk_route 3 2 600 False]
   \<and> optimize_rider_route
         [mk_route 4 4 540 False, mk_route 2 3 600 False, mk_route 3 2 600 False] route_store
       = route_store_23
   \<and> routes_query route_store 1 1
         [mk_route 4 4 540 False, mk_route 3 2 600 False, mk_route 2 3 600 False]
   \<and> optimize_rider_route
         [mk_route 4 4 540 False, mk_route 3 2 600 False, mk_route 2 3 600 False] route_store
       = route_store_32
   \<and> routes_query route_store_23 1 1
         [mk_route 4 1 540 False, mk_route 3 3 600 False, mk_route 2 2 600 False]
   \<and> optimize_rider_route
         [mk_route 4 1 540 False, mk_route 3 3 600 False, mk_route 2 2 600 False] route_store_23
       = route_store_32
   \<and> route_store_32 \<noteq> route_store_23"
  by (simp add: routes_query_def is_incomplete_def optimize_rider_route_def save_route_def
      route_store_23_def route_store_32_def route_store_def mk_route_def)

end
